theory Spec2Isabelle
  imports Main "HOL-Library.Sublist"
begin

section \<open>Values, errors and the event log\<close>

text \<open>
  Structured values as the program handles them: what \<^verbatim>\<open>JSON.stringify\<close> writes, what
  the JSON import reads, and what the driver returns from the page. A JavaScript object
  is an association list in insertion order; numbers are the integers the program
  meets (sizes, positions, page numbers).
\<close>

datatype json =
    JNull
  | JBool bool
  | JNum int
  | JStr string
  | JArr "json list"
  | JObj "(string \<times> json) list"

text \<open>
  Exceptions as values. \<open>Error\<close> is \<^verbatim>\<open>new Error(msg)\<close> of the program itself,
  \<open>TypeError\<close> is the one the language raises (\<^verbatim>\<open>in\<close> on \<^verbatim>\<open>null\<close>, iterating a value
  that is not iterable), \<open>DriverError\<close> is any rejection of a driver call (a timeout,
  a closed target, a failed import).
\<close>

datatype error = Error string | TypeError string | DriverError string

text \<open>
  \<^verbatim>\<open>CrawlingState = Array<unknown>\<close>: the event log, oldest record first.
  \<^verbatim>\<open>statePush\<close> (lines 34-37 and 305-307) pushes \<^verbatim>\<open>{ [this.constructor.name]: data }\<close>;
  the class name is the first argument here, the rest parameter \<^verbatim>\<open>data\<close> the second.
  The message only goes to the console.
\<close>

type_synonym CrawlingState = "json list"

definition statePush :: "string \<Rightarrow> json list \<Rightarrow> CrawlingState \<Rightarrow> CrawlingState" where
  "statePush name data st = st @ [JObj [(name, JArr data)]]"

section \<open>The session manager's accessors\<close>

datatype page = Page nat
datatype browser = Browser nat

text \<open>
  \<^verbatim>\<open>class BrowserManager\<close> (lines 392-411): the private fields \<^verbatim>\<open>_page\<close>,
  \<^verbatim>\<open>_browser\<close> (both \<^verbatim>\<open>undefined\<close> until assigned) and \<^verbatim>\<open>_state\<close>.
\<close>

record BrowserManager =
  priv_page :: "page option"
  priv_browser :: "browser option"
  priv_state :: CrawlingState

definition new_BrowserManager :: BrowserManager where
  "new_BrowserManager = \<lparr>priv_page = None, priv_browser = None, priv_state = []\<rparr>"

definition get_page :: "BrowserManager \<Rightarrow> error + page" where
  "get_page m =
     (case priv_page m of
        None \<Rightarrow> Inl (Error ''Missing page instance'')
      | Some p \<Rightarrow> Inr p)"

definition get_browser :: "BrowserManager \<Rightarrow> error + browser" where
  "get_browser m =
     (case priv_browser m of
        None \<Rightarrow> Inl (Error ''Missing browser instance'')
      | Some b \<Rightarrow> Inr b)"

section \<open>The request interceptor\<close>

text \<open>
  What the handler of lines 313-337 reads from a request, and what it does with it.
\<close>

record request =
  req_headers :: json
  req_url :: string
  req_method :: string
  req_initiator :: json
  req_resourceType :: string

datatype verdict = Abort | Continue

fun indexOf :: "'a list \<Rightarrow> 'a \<Rightarrow> int" where
  "indexOf [] x = -1"
| "indexOf (y # ys) x =
     (if y = x then 0 else (let i = indexOf ys x in if i < 0 then -1 else i + 1))"

definition request_aborted :: "string \<Rightarrow> bool" where
  "request_aborted resourceType =
     (indexOf [''font'', ''stylesheet'', ''other''] resourceType \<ge> 0)"

definition request_record :: "request \<Rightarrow> json" where
  "request_record r =
     JObj [(''method'', JStr (req_method r)),
           (''url'', JStr (req_url r)),
           (''resourceType'', JStr (req_resourceType r)),
           (''headers'', req_headers r),
           (''initiator'', req_initiator r),
           (''aborted'', JBool (request_aborted (req_resourceType r)))]"

definition on_request :: "request \<Rightarrow> CrawlingState \<Rightarrow> verdict \<times> CrawlingState" where
  "on_request r st =
     (let aborted = request_aborted (req_resourceType r);
          st1 = statePush ''RequestInterceptorListener'' [request_record r] st
      in if aborted then (Abort, st1) else (Continue, st1))"

section \<open>Code that runs inside the page\<close>

subsection \<open>Measuring and scrolling the target element\<close>

datatype direction = Vertical | Horizontal | Both

definition direction_name :: "direction \<Rightarrow> string" where
  "direction_name dir =
     (case dir of Vertical \<Rightarrow> ''vertical'' | Horizontal \<Rightarrow> ''horizontal'' | Both \<Rightarrow> ''both'')"

text \<open>The two properties of the target element that the callbacks read.\<close>

record element =
  scrollWidth :: int
  scrollHeight :: int

text \<open>
  The measuring callback, written twice in the source with the same body (lines 220-227
  before the loop, lines 269-276 inside it). The document is the lookup
  \<^verbatim>\<open>document.querySelector\<close>.
\<close>

definition measure_extent :: "(string \<Rightarrow> element option) \<Rightarrow> string \<Rightarrow> direction \<Rightarrow> error + int" where
  "measure_extent querySelector sel dir =
     (case querySelector sel of
        None \<Rightarrow> Inl (Error (''Element not found: '' @ sel))
      | Some el \<Rightarrow>
          Inr (if dir = Horizontal \<or> dir = Both then scrollWidth el else scrollHeight el))"

text \<open>
  The scrolling callback (lines 237-259): the \<^verbatim>\<open>scrollTo\<close> requests it issues, in order.
  Each is followed by a wait of 500 ms, which has no value to return.
\<close>

datatype scroll_request = ScrollLeft int | ScrollTop int

definition smooth_scroll ::
  "(string \<Rightarrow> element option) \<Rightarrow> string \<Rightarrow> direction \<Rightarrow> error + scroll_request list" where
  "smooth_scroll querySelector sel dir =
     (case querySelector sel of
        None \<Rightarrow> Inl (Error (''Element not found: '' @ sel))
      | Some el \<Rightarrow>
          Inr ((if dir = Horizontal \<or> dir = Both then [ScrollLeft (scrollWidth el)] else [])
             @ (if dir = Vertical \<or> dir = Both then [ScrollTop (scrollHeight el)] else [])))"

subsection \<open>Strings and URLs of the platform\<close>

text \<open>
  The built-ins the pagination callback calls. A string is the sequence of the bytes of
  its UTF-8 form; letters are the ASCII letters. White space is what the language
  strips: the ASCII white space, and the code points U+00A0, U+1680, U+2000 to
  U+200A, U+2028, U+2029, U+202F, U+205F, U+3000 and U+FEFF, each in its two or three
  bytes. \<open>space_length\<close> is the number of bytes of the white space a string starts
  with, \<open>space_length_back\<close> of the white space that a string read backwards starts
  with; both are 0 when there is none.
\<close>

definition ascii_space :: "char \<Rightarrow> bool" where
  "ascii_space c = (c \<in> set [CHR 0x09, CHR 0x0A, CHR 0x0B, CHR 0x0C, CHR 0x0D, CHR 0x20])"

definition space2 :: "char \<Rightarrow> char \<Rightarrow> bool" where
  "space2 a b = (a = CHR 0xC2 \<and> b = CHR 0xA0)"

definition space3 :: "char \<Rightarrow> char \<Rightarrow> char \<Rightarrow> bool" where
  "space3 a b c =
     ((a = CHR 0xE1 \<and> b = CHR 0x9A \<and> c = CHR 0x80)
    \<or> (a = CHR 0xE2 \<and> b = CHR 0x80
         \<and> ((128 \<le> (of_char c :: nat) \<and> (of_char c :: nat) \<le> 138)
            \<or> c = CHR 0xA8 \<or> c = CHR 0xA9 \<or> c = CHR 0xAF))
    \<or> (a = CHR 0xE2 \<and> b = CHR 0x81 \<and> c = CHR 0x9F)
    \<or> (a = CHR 0xE3 \<and> b = CHR 0x80 \<and> c = CHR 0x80)
    \<or> (a = CHR 0xEF \<and> b = CHR 0xBB \<and> c = CHR 0xBF))"

fun space_length :: "string \<Rightarrow> nat" where
  "space_length (a # b # c # r) =
     (if ascii_space a then 1 else if space2 a b then 2 else if space3 a b c then 3 else 0)"
| "space_length [a, b] = (if ascii_space a then 1 else if space2 a b then 2 else 0)"
| "space_length [a] = (if ascii_space a then 1 else 0)"
| "space_length [] = 0"

fun space_length_back :: "string \<Rightarrow> nat" where
  "space_length_back (c # b # a # r) =
     (if ascii_space c then 1 else if space2 b c then 2 else if space3 a b c then 3 else 0)"
| "space_length_back [c, b] = (if ascii_space c then 1 else if space2 b c then 2 else 0)"
| "space_length_back [c] = (if ascii_space c then 1 else 0)"
| "space_length_back [] = 0"

text \<open>
  Dropping white space for as long as there is some; a string has no more pieces of
  white space than it has bytes.
\<close>

fun strip :: "(string \<Rightarrow> nat) \<Rightarrow> nat \<Rightarrow> string \<Rightarrow> string" where
  "strip len 0 s = s"
| "strip len (Suc k) s = (let n = len s in if n = 0 then s else strip len k (drop n s))"

definition trimStart :: "string \<Rightarrow> string" where
  "trimStart s = strip space_length (length s) s"

definition trimEnd :: "string \<Rightarrow> string" where
  "trimEnd s = rev (strip space_length_back (length s) (rev s))"

definition trim :: "string \<Rightarrow> string" where
  "trim s = trimEnd (trimStart s)"

text \<open>
  A number as the callback produces it: \<^verbatim>\<open>NaN\<close>, an integer, or an infinity.
  \<^verbatim>\<open>parseInt(s, 10)\<close> skips leading white space, reads a sign and the decimal digits
  that follow, and returns the double nearest to their value (a mantissa of 53 bits,
  ties to the even one, and infinity when the rounded value reaches \<open>2 ^ 1024\<close>);
  without a digit it is \<^verbatim>\<open>NaN\<close>.
\<close>

datatype number = NaN | Finite int | Infinite bool

definition is_digit :: "char \<Rightarrow> bool" where
  "is_digit c = (48 \<le> (of_char c :: nat) \<and> (of_char c :: nat) \<le> 57)"

definition digits_value :: "string \<Rightarrow> int" where
  "digits_value ds = foldl (\<lambda>acc c. 10 * acc + (int (of_char c) - 48)) 0 ds"

text \<open>
  \<open>halvings k n\<close> is the number of times \<open>n\<close> is halved until it is below
  \<open>2 ^ 53\<close>, at most \<open>k\<close> times; a numeral of \<open>len\<close> decimal digits needs fewer than
  \<open>4 * len\<close>.
\<close>

fun halvings :: "nat \<Rightarrow> int \<Rightarrow> nat" where
  "halvings 0 n = 0"
| "halvings (Suc k) n = (if n < 2 ^ 53 then 0 else Suc (halvings k (n div 2)))"

definition nearest_double :: "nat \<Rightarrow> int \<Rightarrow> int option" where
  "nearest_double len n =
     (let e = halvings (4 * len) n;
          q = n div 2 ^ e;
          r = n mod 2 ^ e;
          h = 2 ^ (e - 1);
          m = (if h < r \<or> (r = h \<and> odd q) then q + 1 else q)
      in if e = 0 then Some n
         else if m * 2 ^ e < 2 ^ 1024 then Some (m * 2 ^ e) else None)"

definition parseInt :: "string \<Rightarrow> number" where
  "parseInt s =
     (let t = trimStart s;
          negative = (case t of [] \<Rightarrow> False | c # _ \<Rightarrow> c = CHR ''-'');
          u = (case t of [] \<Rightarrow> [] | c # r \<Rightarrow> if c = CHR ''-'' \<or> c = CHR ''+'' then r else t);
          ds = takeWhile is_digit u
      in if ds = [] then NaN
         else (case nearest_double (length ds) (digits_value ds) of
                 None \<Rightarrow> Infinite negative
               | Some v \<Rightarrow> Finite (if negative then - v else v)))"

text \<open>\<^verbatim>\<open>x >= 0\<close> on a number.\<close>

definition not_negative :: "number \<Rightarrow> bool" where
  "not_negative x = (case x of NaN \<Rightarrow> False | Finite n \<Rightarrow> 0 \<le> n | Infinite negative \<Rightarrow> \<not> negative)"

definition toLocaleLowerCase :: "string \<Rightarrow> string" where
  "toLocaleLowerCase s =
     map (\<lambda>c. if 65 \<le> (of_char c :: nat) \<and> (of_char c :: nat) \<le> 90
              then char_of ((of_char c :: nat) + 32) else c) s"

definition startsWith :: "string \<Rightarrow> string \<Rightarrow> bool" where
  "startsWith s t = (take (length t) s = t)"

definition endsWith :: "string \<Rightarrow> string \<Rightarrow> bool" where
  "endsWith s t = (length t \<le> length s \<and> drop (length s - length t) s = t)"

text \<open>
  \<^verbatim>\<open>new URL(url).search\<close>: \<open>None\<close> where the constructor throws, otherwise the part
  from the first \<^verbatim>\<open>?\<close> up to the fragment, empty when nothing follows the \<^verbatim>\<open>?\<close>.
  The parser first drops control characters and spaces at both ends. The constructor is
  taken to throw on the strings that do not start with a scheme (there is no base to
  resolve them against); an address that starts with a scheme and is rejected further
  on, for its host or its port, is outside this model, which is evaluated on well-formed
  addresses only.
\<close>

definition is_alpha :: "char \<Rightarrow> bool" where
  "is_alpha c = ((65 \<le> (of_char c :: nat) \<and> (of_char c :: nat) \<le> 90)
               \<or> (97 \<le> (of_char c :: nat) \<and> (of_char c :: nat) \<le> 122))"

definition is_scheme_char :: "char \<Rightarrow> bool" where
  "is_scheme_char c = (is_alpha c \<or> is_digit c \<or> c \<in> set [CHR ''+'', CHR ''-'', CHR ''.''])"

definition has_scheme :: "string \<Rightarrow> bool" where
  "has_scheme s =
     (case s of
        [] \<Rightarrow> False
      | c # r \<Rightarrow> is_alpha c \<and> (case dropWhile is_scheme_char r of [] \<Rightarrow> False | k # _ \<Rightarrow> k = CHR '':''))"

definition c0_or_space :: "char \<Rightarrow> bool" where
  "c0_or_space c = ((of_char c :: nat) \<le> 32)"

definition url_search :: "string \<Rightarrow> string option" where
  "url_search url =
     (let s = rev (dropWhile c0_or_space (rev (dropWhile c0_or_space url))) in
      if \<not> has_scheme s then None
      else (let q = dropWhile (\<lambda>c. c \<noteq> CHR ''?'') (takeWhile (\<lambda>c. c \<noteq> CHR ''#'') s)
            in Some (if q = ''?'' then [] else q)))"

text \<open>
  \<^verbatim>\<open>new URLSearchParams(search)\<close>, as the list of pairs that \<^verbatim>\<open>forEach\<close> visits: the
  leading \<^verbatim>\<open>?\<close> dropped, split at \<^verbatim>\<open>&\<close>, empty pieces skipped, each piece split at
  its first \<^verbatim>\<open>=\<close>, \<^verbatim>\<open>+\<close> read as a space and \<^verbatim>\<open>%XX\<close> as the byte it names.
\<close>

fun split_on :: "char \<Rightarrow> string \<Rightarrow> string list" where
  "split_on sep [] = [[]]"
| "split_on sep (c # cs) =
     (if c = sep then [] # split_on sep cs
      else (case split_on sep cs of [] \<Rightarrow> [[c]] | p # ps \<Rightarrow> (c # p) # ps))"

definition hex_value :: "char \<Rightarrow> nat option" where
  "hex_value c =
     (let n = (of_char c :: nat) in
      if 48 \<le> n \<and> n \<le> 57 then Some (n - 48)
      else if 65 \<le> n \<and> n \<le> 70 then Some (n - 55)
      else if 97 \<le> n \<and> n \<le> 102 then Some (n - 87)
      else None)"

fun percent_decode :: "string \<Rightarrow> string" where
  "percent_decode (c # h # l # rest) =
     (if c = CHR ''%'' then
        (case (hex_value h, hex_value l) of
           (Some x, Some y) \<Rightarrow> char_of (16 * x + y) # percent_decode rest
         | _ \<Rightarrow> c # percent_decode (h # l # rest))
      else c # percent_decode (h # l # rest))"
| "percent_decode cs = cs"

definition form_decode :: "string \<Rightarrow> string" where
  "form_decode s = percent_decode (map (\<lambda>c. if c = CHR ''+'' then CHR '' '' else c) s)"

definition URLSearchParams :: "string \<Rightarrow> (string \<times> string) list" where
  "URLSearchParams search =
     (let body = (case search of [] \<Rightarrow> [] | c # r \<Rightarrow> if c = CHR ''?'' then r else search)
      in map (\<lambda>piece. (form_decode (takeWhile (\<lambda>c. c \<noteq> CHR ''='') piece),
                        form_decode (drop 1 (dropWhile (\<lambda>c. c \<noteq> CHR ''='') piece))))
           (filter (\<lambda>piece. piece \<noteq> []) (split_on (CHR ''&'') body)))"

subsection \<open>Pagination discovery\<close>

text \<open>
  An anchor of the document: the node's identity, and the two properties the callbacks
  read. \<^verbatim>\<open>textContent\<close> is \<^verbatim>\<open>string | null\<close>.
\<close>

record anchor =
  node :: nat
  textContent :: "string option"
  href :: string

text \<open>
  The object a pagination anchor is mapped to (lines 151-156). \<^verbatim>\<open>props\<close> is the
  object built by \<^verbatim>\<open>_extractParams\<close>, its keys in the order of first assignment, or
  \<open>None\<close> for \<^verbatim>\<open>null\<close>.
\<close>

record pagination_entry =
  entry_page :: number
  entry_href :: string
  pos :: int
  props :: "(string \<times> string) list option"

text \<open>
  \<^verbatim>\<open>paramsObj[key] = value\<close> on an object given as the list of its own properties in the
  order in which they are enumerated: the array indices (the decimal numerals up to
  \<open>2 ^ 32 - 2\<close>) first, by value, then the other keys in the order of their first
  assignment. A string assigned to \<^verbatim>\<open>__proto__\<close> goes to the setter of the prototype,
  which ignores it: no property is made.
\<close>

definition is_array_index :: "string \<Rightarrow> bool" where
  "is_array_index k =
     (k \<noteq> [] \<and> list_all is_digit k \<and> (k = ''0'' \<or> hd k \<noteq> CHR ''0'')
      \<and> digits_value k \<le> 4294967294)"

definition enumerated_before :: "string \<Rightarrow> string \<Rightarrow> bool" where
  "enumerated_before k q =
     (is_array_index k \<and> (\<not> is_array_index q \<or> digits_value k < digits_value q))"

fun assign_key :: "string \<Rightarrow> string \<Rightarrow> (string \<times> string) list \<Rightarrow> (string \<times> string) list" where
  "assign_key k v [] = [(k, v)]"
| "assign_key k v (p # ps) =
     (if fst p = k then (k, v) # ps
      else if enumerated_before k (fst p) then (k, v) # p # ps
      else p # assign_key k v ps)"

definition assign :: "string \<Rightarrow> string \<Rightarrow> (string \<times> string) list \<Rightarrow> (string \<times> string) list" where
  "assign k v obj = (if k = ''__proto__'' then obj else assign_key k v obj)"

definition extractParams :: "string \<Rightarrow> (string \<times> string) list option" where
  "extractParams url =
     (case url_search url of
        None \<Rightarrow> None
      | Some search \<Rightarrow>
          Some (foldl (\<lambda>paramsObj (key, val). assign (toLocaleLowerCase key) val paramsObj)
                  [] (URLSearchParams search)))"

definition to_entry :: "anchor list \<Rightarrow> anchor \<Rightarrow> pagination_entry" where
  "to_entry elements hrefElement =
     \<lparr>entry_page = parseInt (case textContent hrefElement of None \<Rightarrow> ''0'' | Some t \<Rightarrow> trim t),
      entry_href = href hrefElement,
      pos = indexOf elements hrefElement,
      props = extractParams (href hrefElement)\<rparr>"

definition keep_entry :: "pagination_entry \<Rightarrow> bool" where
  "keep_entry e =
     (not_negative (entry_page e) \<and> trim (entry_href e) \<noteq> [])"

text \<open>
  The comparison function handed to \<^verbatim>\<open>sort\<close> (line 159): it takes the first of the two
  elements it is called with and returns that element's \<^verbatim>\<open>pos\<close>.
\<close>

definition by_pos :: "pagination_entry \<Rightarrow> pagination_entry \<Rightarrow> int" where
  "by_pos v w = pos v"

text \<open>
  The first callback of \<^verbatim>\<open>discover\<close> (lines 141-159), given the anchors that
  \<^verbatim>\<open>querySelectorAll("#pagination a")\<close> returns. \<^verbatim>\<open>Array.prototype.sort\<close> belongs to
  the engine that runs the page, not to this program: it is the parameter
  \<open>array_sort\<close>, which receives the comparison function and the array.
\<close>

type_synonym 'a sort_impl = "('a \<Rightarrow> 'a \<Rightarrow> int) \<Rightarrow> 'a list \<Rightarrow> 'a list"

definition filtered_mapping :: "anchor list \<Rightarrow> pagination_entry list" where
  "filtered_mapping elements = filter keep_entry (map (to_entry elements) elements)"

definition discover_pages :: "pagination_entry sort_impl \<Rightarrow> anchor list \<Rightarrow> pagination_entry list" where
  "discover_pages array_sort elements = array_sort by_pos (filtered_mapping elements)"

text \<open>
  The second callback (lines 163-171), given \<^verbatim>\<open>window.location.origin\<close> and the anchors
  that \<^verbatim>\<open>querySelectorAll("a")\<close> returns. The \<^verbatim>\<open>Set\<close> is the list of its members in
  insertion order, which is the order \<^verbatim>\<open>Array.from\<close> reads them in.
\<close>

definition set_add :: "string \<Rightarrow> string list \<Rightarrow> string list" where
  "set_add x s = (if x \<in> set s then s else s @ [x])"

definition discover_links :: "string \<Rightarrow> anchor list \<Rightarrow> string list" where
  "discover_links origin anchors =
     foldl (\<lambda>s h. set_add h s) []
       (filter (\<lambda>h. startsWith h origin \<and> endsWith h ''.aspx'') (map href anchors))"

section \<open>The driver\<close>

text \<open>
  The callbacks that the services hand to \<^verbatim>\<open>page.evaluate\<close>, by what they do: the
  driver ships each to the page and returns its value.
\<close>

datatype script =
    MeasureExtent string direction
  | SmoothScroll string direction
  | RandomDelay
  | ClickElementById string
  | PaginationPages
  | CurrentDomainLinks
  | MetaTags
  | BodyOuterHTML

text \<open>
  The browser-automation library as the program uses it. It is not part of the program:
  every operation is a parameter, acting on a state \<open>'w\<close> of everything outside the
  program (browser, page, network, files). An awaited call that rejects returns \<open>Inl\<close>.
  \<^verbatim>\<open>page.waitForSelector\<close> resolves to a handle or to \<^verbatim>\<open>null\<close>: the boolean says
  whether it is a handle. Its third argument is the \<^verbatim>\<open>timeout\<close> option, when given.
\<close>

record 'w driver =
  puppeteer_connect :: "(string \<times> json) list \<Rightarrow> 'w \<Rightarrow> (error + browser) \<times> 'w"
  puppeteer_launch :: "(string \<times> json) list \<Rightarrow> 'w \<Rightarrow> (error + browser) \<times> 'w"
  browser_newPage :: "browser \<Rightarrow> 'w \<Rightarrow> (error + page) \<times> 'w"
  page_setRequestInterception :: "page \<Rightarrow> bool \<Rightarrow> 'w \<Rightarrow> (error + unit) \<times> 'w"
  page_on :: "page \<Rightarrow> string \<Rightarrow> 'w \<Rightarrow> 'w"
  page_screenshot :: "page \<Rightarrow> string \<Rightarrow> 'w \<Rightarrow> (error + nat list) \<times> 'w"
  page_setCookie :: "page \<Rightarrow> json list \<Rightarrow> 'w \<Rightarrow> (error + unit) \<times> 'w"
  page_cookies :: "page \<Rightarrow> 'w \<Rightarrow> (error + json list) \<times> 'w"
  page_waitForSelector :: "page \<Rightarrow> string \<Rightarrow> nat option \<Rightarrow> 'w \<Rightarrow> (error + bool) \<times> 'w"
  page_evaluate :: "page \<Rightarrow> script \<Rightarrow> 'w \<Rightarrow> (error + json) \<times> 'w"
  page_click :: "page \<Rightarrow> string \<Rightarrow> 'w \<Rightarrow> (error + unit) \<times> 'w"
  page_goto :: "page \<Rightarrow> string \<Rightarrow> json \<Rightarrow> 'w \<Rightarrow> (error + unit) \<times> 'w"
  page_title :: "page \<Rightarrow> 'w \<Rightarrow> (error + string) \<times> 'w"
  page_url :: "page \<Rightarrow> 'w \<Rightarrow> string"
  page_metrics :: "page \<Rightarrow> 'w \<Rightarrow> (error + json) \<times> 'w"
  page_waitForNavigation :: "page \<Rightarrow> 'w \<Rightarrow> (error + unit) \<times> 'w"
  import_json :: "string \<Rightarrow> 'w \<Rightarrow> (error + json) \<times> 'w"

section \<open>The capability services\<close>

text \<open>
  A service holds the page handle and a reference to the log. An operation takes the log
  and the outside state and returns its outcome with both, the log also when it throws:
  what was pushed before the exception stays pushed.
\<close>

definition screenshot ::
  "'w driver \<Rightarrow> page \<Rightarrow> string \<Rightarrow> CrawlingState \<times> 'w \<Rightarrow> (error + unit) \<times> CrawlingState \<times> 'w" where
  "screenshot d pg path s =
     (case s of (st, w) \<Rightarrow>
      (case page_screenshot d pg path w of
         (Inl e, w1) \<Rightarrow> (Inl e, st, w1)
       | (Inr buf, w1) \<Rightarrow>
           (Inr (),
            statePush ''ScreenshotService''
              [JObj [(''path'', JStr path), (''size'', JNum (int (length buf)))]] st,
            w1)))"

text \<open>
  \<^verbatim>\<open>for (const log of output.default)\<close> iterates an array by its elements and a string
  by its characters; any other value is not iterable.
\<close>

definition iterate :: "json \<Rightarrow> error + json list" where
  "iterate v =
     (case v of
        JArr xs \<Rightarrow> Inr xs
      | JStr cs \<Rightarrow> Inr (map (\<lambda>c. JStr [c]) cs)
      | _ \<Rightarrow> Inl (TypeError ''output.default is not iterable''))"

text \<open>
  The loop of lines 62-67: \<open>Inr (Some v)\<close> when it assigns \<open>v\<close> and breaks,
  \<open>Inr None\<close> when it runs to the end. \<^verbatim>\<open>typeof null\<close> is \<^verbatim>\<open>"object"\<close>, and
  \<^verbatim>\<open>in\<close> throws on \<^verbatim>\<open>null\<close>; an array has no property of that name. The keys of a
  parsed object are distinct.
\<close>

fun find_cookies :: "json list \<Rightarrow> error + json option" where
  "find_cookies [] = Inr None"
| "find_cookies (log # rest) =
     (case log of
        JNull \<Rightarrow> Inl (TypeError ''Cannot use 'in' operator to search for 'CookiesService' in null'')
      | JObj kvs \<Rightarrow>
          (case map_of kvs ''CookiesService'' of
             Some v \<Rightarrow> Inr (Some v)
           | None \<Rightarrow> find_cookies rest)
      | _ \<Rightarrow> find_cookies rest)"

text \<open>
  The \<^verbatim>\<open>.then\<close> callback: the value of \<^verbatim>\<open>cookies\<close> when it returns, or the exception
  that leaves it.
\<close>

definition scan_output :: "json \<Rightarrow> error + json" where
  "scan_output output_default =
     (case iterate output_default of
        Inl e \<Rightarrow> Inl e
      | Inr logs \<Rightarrow>
          (case find_cookies logs of
             Inl e \<Rightarrow> Inl e
           | Inr None \<Rightarrow> Inr (JArr [])
           | Inr (Some v) \<Rightarrow> Inr v))"

text \<open>
  \<^verbatim>\<open>.catch(() => [])\<close> follows \<^verbatim>\<open>.then\<close>, so it takes the rejection of the import and
  the exception of the callback alike; \<^verbatim>\<open>cookies\<close> is then still \<^verbatim>\<open>[]\<close>.
\<close>

definition loadCookiesFromStorage ::
  "'w driver \<Rightarrow> string \<Rightarrow> CrawlingState \<times> 'w \<Rightarrow> (error + json) \<times> CrawlingState \<times> 'w" where
  "loadCookiesFromStorage d path s =
     (case s of (st, w) \<Rightarrow>
      (case import_json d path w of
         (Inl e, w1) \<Rightarrow> (Inr (JArr []), st, w1)
       | (Inr output_default, w1) \<Rightarrow>
           (case scan_output output_default of
              Inl e \<Rightarrow> (Inr (JArr []), st, w1)
            | Inr cookies \<Rightarrow> (Inr cookies, st, w1))))"

definition setCookies ::
  "'w driver \<Rightarrow> page \<Rightarrow> json list option \<Rightarrow> CrawlingState \<times> 'w
   \<Rightarrow> (error + unit) \<times> CrawlingState \<times> 'w" where
  "setCookies d pg input s =
     (case s of (st, w) \<Rightarrow>
      (case input of
         None \<Rightarrow> (Inr (), st, w)
       | Some cs \<Rightarrow>
           if length cs \<noteq> 0
           then (case page_setCookie d pg cs w of (r, w1) \<Rightarrow> (r, st, w1))
           else (Inr (), st, w)))"

definition getCookies ::
  "'w driver \<Rightarrow> page \<Rightarrow> CrawlingState \<times> 'w \<Rightarrow> (error + unit) \<times> CrawlingState \<times> 'w" where
  "getCookies d pg s =
     (case s of (st, w) \<Rightarrow>
      (case page_cookies d pg w of
         (Inl e, w1) \<Rightarrow> (Inl e, st, w1)
       | (Inr cookies, w1) \<Rightarrow> (Inr (), statePush ''CookiesService'' cookies st, w1)))"

definition close ::
  "'w driver \<Rightarrow> page \<Rightarrow> string option \<Rightarrow> CrawlingState \<times> 'w
   \<Rightarrow> (error + unit) \<times> CrawlingState \<times> 'w" where
  "close d pg id_arg s =
     (case s of (st, w) \<Rightarrow>
      (let ident = (case id_arg of None \<Rightarrow> ''close-cookies'' | Some i \<Rightarrow> i) in
       case page_waitForSelector d pg (''#'' @ ident) (Some 5000) w of
         (Inl e, w1) \<Rightarrow> (Inr (), st, w1)
       | (Inr closeContent, w1) \<Rightarrow>
           if closeContent
           then (case page_evaluate d pg (ClickElementById ident) w1 of
                   (Inl e, w2) \<Rightarrow> (Inl e, st, w2)
                 | (Inr _, w2) \<Rightarrow> (Inr (), st, w2))
           else (Inr (), st, w1)))"

definition click ::
  "'w driver \<Rightarrow> page \<Rightarrow> string \<Rightarrow> CrawlingState \<times> 'w \<Rightarrow> (error + unit) \<times> CrawlingState \<times> 'w" where
  "click d pg selector s =
     (case s of (st, w) \<Rightarrow>
      (let st1 = statePush ''ClickService'' [JStr selector] st in
       case page_waitForSelector d pg selector None w of
         (Inl e, w1) \<Rightarrow> (Inl e, st1, w1)
       | (Inr _, w1) \<Rightarrow> (case page_click d pg selector w1 of (r, w2) \<Rightarrow> (r, st1, w2))))"

definition discover ::
  "'w driver \<Rightarrow> page \<Rightarrow> CrawlingState \<times> 'w \<Rightarrow> (error + unit) \<times> CrawlingState \<times> 'w" where
  "discover d pg s =
     (case s of (st, w) \<Rightarrow>
      (case page_evaluate d pg PaginationPages w of
         (Inl e, w1) \<Rightarrow> (Inl e, st, w1)
       | (Inr pages, w1) \<Rightarrow>
           (case page_evaluate d pg CurrentDomainLinks w1 of
              (Inl e, w2) \<Rightarrow> (Inl e, st, w2)
            | (Inr links, w2) \<Rightarrow>
                (Inr (),
                 statePush ''PaginationService'' [JObj [(''links'', links), (''pages'', pages)]] st,
                 w2))))"

definition default_GoToOptions :: json where
  "default_GoToOptions = JObj [(''waitUntil'', JStr ''networkidle2''), (''timeout'', JNum 30000)]"

definition navigate ::
  "'w driver \<Rightarrow> page \<Rightarrow> string \<Rightarrow> json option \<Rightarrow> CrawlingState \<times> 'w
   \<Rightarrow> (error + unit) \<times> CrawlingState \<times> 'w" where
  "navigate d pg url options_arg s =
     (case s of (st, w) \<Rightarrow>
      (let opts = (case options_arg of None \<Rightarrow> default_GoToOptions | Some v \<Rightarrow> v);
           st1 = statePush ''NavigationService'' [JObj [(''url'', JStr url), (''options'', opts)]] st
       in case page_goto d pg url opts w of (r, w1) \<Rightarrow> (r, st1, w1)))"

definition getResults ::
  "'w driver \<Rightarrow> page \<Rightarrow> CrawlingState \<times> 'w \<Rightarrow> (error + unit) \<times> CrawlingState \<times> 'w" where
  "getResults d pg s =
     (case s of (st, w) \<Rightarrow>
      (case page_title d pg w of
         (Inl e, w1) \<Rightarrow> (Inl e, st, w1)
       | (Inr title, w1) \<Rightarrow>
           (let url = page_url d pg w1 in
            case page_evaluate d pg MetaTags w1 of
              (Inl e, w2) \<Rightarrow> (Inl e, st, w2)
            | (Inr meta, w2) \<Rightarrow>
                (case page_metrics d pg w2 of
                   (Inl e, w3) \<Rightarrow> (Inl e, st, w3)
                 | (Inr metrics, w3) \<Rightarrow>
                     (Inr (),
                      statePush ''MetricsService''
                        [JObj [(''metadata'',
                                JObj [(''title'', JStr title), (''url'', JStr url), (''meta'', meta)]),
                               (''metrics'', metrics)]] st,
                      w3)))))"

definition getContent ::
  "'w driver \<Rightarrow> page \<Rightarrow> CrawlingState \<times> 'w \<Rightarrow> (error + unit) \<times> CrawlingState \<times> 'w" where
  "getContent d pg s =
     (case s of (st, w) \<Rightarrow>
      (case page_evaluate d pg BodyOuterHTML w of
         (Inl e, w1) \<Rightarrow> (Inl e, st, w1)
       | (Inr body, w1) \<Rightarrow> (Inr (), statePush ''ContentService'' [body] st, w1)))"

subsection \<open>Scrolling until the extent is stable\<close>

text \<open>
  \<^verbatim>\<open>!==\<close> on what \<^verbatim>\<open>page.evaluate\<close> returned: primitive values are compared by value; an
  array or an object is a fresh value at every return and differs from every other one.
\<close>

definition strict_equal :: "json \<Rightarrow> json \<Rightarrow> bool" where
  "strict_equal a b =
     (case (a, b) of
        (JNull, JNull) \<Rightarrow> True
      | (JBool x, JBool y) \<Rightarrow> x = y
      | (JNum x, JNum y) \<Rightarrow> x = y
      | (JStr x, JStr y) \<Rightarrow> x = y
      | _ \<Rightarrow> False)"

text \<open>
  One pass through the body of the loop after \<^verbatim>\<open>previousSize = currentSize\<close> (lines
  236-284): the scroll, the wait for the network to be idle, the new measurement, the
  random delay. It returns the new measurement.
\<close>

definition scroll_pass ::
  "'w driver \<Rightarrow> page \<Rightarrow> string \<Rightarrow> direction \<Rightarrow> 'w \<Rightarrow> (error + json) \<times> 'w" where
  "scroll_pass d pg selector dir w =
     (case page_evaluate d pg (SmoothScroll selector dir) w of
        (Inl e, w1) \<Rightarrow> (Inl e, w1)
      | (Inr _, w1) \<Rightarrow>
          (case page_waitForNavigation d pg w1 of
             (Inl e, w2) \<Rightarrow> (Inl e, w2)
           | (Inr _, w2) \<Rightarrow>
               (case page_evaluate d pg (MeasureExtent selector dir) w2 of
                  (Inl e, w3) \<Rightarrow> (Inl e, w3)
                | (Inr newSize, w3) \<Rightarrow>
                    (case page_evaluate d pg RandomDelay w3 of
                       (Inl e, w4) \<Rightarrow> (Inl e, w4)
                     | (Inr _, w4) \<Rightarrow> (Inr newSize, w4)))))"

text \<open>
  The \<^verbatim>\<open>while\<close> loop of line 232. It has no bound, so it is a partial function:
  \<open>None\<close> is the loop that never ends.
\<close>

partial_function (option) scroll_loop ::
  "'w driver \<Rightarrow> page \<Rightarrow> string \<Rightarrow> direction \<Rightarrow> json \<Rightarrow> json \<Rightarrow> 'w
   \<Rightarrow> ((error + unit) \<times> 'w) option" where
  "scroll_loop d pg selector dir previousSize currentSize w =
     (if \<not> strict_equal currentSize previousSize then
        (case scroll_pass d pg selector dir w of
           (Inl e, w1) \<Rightarrow> Some (Inl e, w1)
         | (Inr newSize, w1) \<Rightarrow> scroll_loop d pg selector dir currentSize newSize w1)
      else Some (Inr (), w))"

declare scroll_loop.simps [code]

definition scroll ::
  "'w driver \<Rightarrow> page \<Rightarrow> string \<Rightarrow> direction option \<Rightarrow> CrawlingState \<times> 'w
   \<Rightarrow> ((error + unit) \<times> CrawlingState \<times> 'w) option" where
  "scroll d pg selector direction_arg s =
     (case s of (st, w) \<Rightarrow>
      (let dir = (case direction_arg of None \<Rightarrow> Vertical | Some v \<Rightarrow> v);
           st1 = statePush ''ScrollService''
                   [JObj [(''selector'', JStr selector), (''direction'', JStr (direction_name dir))]] st
       in case page_waitForSelector d pg selector (Some 60000) w of
            (Inl e, w1) \<Rightarrow> Some (Inl e, st1, w1)
          | (Inr _, w1) \<Rightarrow>
              (case page_evaluate d pg (MeasureExtent selector dir) w1 of
                 (Inl e, w2) \<Rightarrow> Some (Inl e, st1, w2)
               | (Inr currentSize, w2) \<Rightarrow>
                   map_option (\<lambda>(r, w3). (r, st1, w3))
                     (scroll_loop d pg selector dir (JNum 0) currentSize w2))))"

section \<open>Listeners and session start\<close>

text \<open>What the response handler (lines 342-362) reads from a response.\<close>

record response =
  res_headers :: json
  res_url :: string
  res_status :: int
  res_statusText :: string
  res_ok :: bool
  res_fromCache :: bool
  res_remoteAddress :: json
  res_text :: "error + string"

definition on_response :: "response \<Rightarrow> CrawlingState \<Rightarrow> CrawlingState" where
  "on_response r st =
     (let content = (case res_text r of Inl e \<Rightarrow> JNull | Inr t \<Rightarrow> JStr t)
      in statePush ''ResponseInterceptorListener''
           [JObj [(''ok'', JBool (res_ok r)),
                  (''status'', JNum (res_status r)),
                  (''statusText'', JStr (res_statusText r)),
                  (''url'', JStr (res_url r)),
                  (''remoteAddress'', res_remoteAddress r),
                  (''fromCache'', JBool (res_fromCache r)),
                  (''headers'', res_headers r),
                  (''content'', content)]] st)"

text \<open>
  \<^verbatim>\<open>attach\<close> of the two listeners (lines 311-313 and 341-342): what they ask of the
  page. The handlers they subscribe are \<open>on_request\<close> and \<open>on_response\<close>.
\<close>

definition attach_RequestInterceptorListener :: "'w driver \<Rightarrow> page \<Rightarrow> 'w \<Rightarrow> (error + unit) \<times> 'w" where
  "attach_RequestInterceptorListener d pg w =
     (case page_setRequestInterception d pg True w of
        (Inl e, w1) \<Rightarrow> (Inl e, w1)
      | (Inr _, w1) \<Rightarrow> (Inr (), page_on d pg ''request'' w1))"

definition attach_ResponseInterceptorListener :: "'w driver \<Rightarrow> page \<Rightarrow> 'w \<Rightarrow> (error + unit) \<times> 'w" where
  "attach_ResponseInterceptorListener d pg w = (Inr (), page_on d pg ''response'' w)"

text \<open>
  \<^verbatim>\<open>"browserWSEndpoint" in options\<close>: the options object is the list of its own
  properties.
\<close>

definition has_key :: "string \<Rightarrow> (string \<times> json) list \<Rightarrow> bool" where
  "has_key k obj = (k \<in> set (map fst obj))"

text \<open>
  \<^verbatim>\<open>initialize\<close> (lines 413-427). Both registered listeners are request listeners, so
  the filter keeps both, in the order of the registry.
\<close>

definition initialize ::
  "'w driver \<Rightarrow> (string \<times> json) list \<Rightarrow> BrowserManager \<times> 'w
   \<Rightarrow> (error + unit) \<times> BrowserManager \<times> 'w" where
  "initialize d opts s =
     (case s of (m, w) \<Rightarrow>
      (case (if has_key ''browserWSEndpoint'' opts then
               (case puppeteer_connect d opts w of
                  (Inl e, w1) \<Rightarrow> (Inl e, w1)
                | (Inr b, w1) \<Rightarrow> (Inr (m\<lparr>priv_browser := Some b\<rparr>), w1))
             else if has_key ''executablePath'' opts then
               (case puppeteer_launch d opts w of
                  (Inl e, w1) \<Rightarrow> (Inl e, w1)
                | (Inr b, w1) \<Rightarrow> (Inr (m\<lparr>priv_browser := Some b\<rparr>), w1))
             else (Inr m, w)) of
         (Inl e, w1) \<Rightarrow> (Inl e, m, w1)
       | (Inr m1, w1) \<Rightarrow>
           (case get_browser m1 of
              Inl e \<Rightarrow> (Inl e, m1, w1)
            | Inr b \<Rightarrow>
                (case browser_newPage d b w1 of
                   (Inl e, w2) \<Rightarrow> (Inl e, m1, w2)
                 | (Inr p, w2) \<Rightarrow>
                     (let m2 = m1\<lparr>priv_page := Some p\<rparr> in
                      case get_page m2 of
                        Inl e \<Rightarrow> (Inl e, m2, w2)
                      | Inr pg \<Rightarrow>
                          (case attach_RequestInterceptorListener d pg w2 of
                             (Inl e, w3) \<Rightarrow> (Inl e, m2, w3)
                           | (Inr _, w3) \<Rightarrow>
                               (case attach_ResponseInterceptorListener d pg w3 of
                                  (Inl e, w4) \<Rightarrow> (Inl e, m2, w4)
                                | (Inr _, w4) \<Rightarrow> (Inr (), m2, w4))))))))"

section \<open>Session activity\<close>

text \<open>
  The public operations of the eight services, as calls, and the two kinds of network
  event a listener is called back with.
\<close>

datatype call =
    Screenshot string
  | LoadCookiesFromStorage string
  | SetCookies "json list option"
  | GetCookies
  | Close "string option"
  | Click string
  | Discover
  | Navigate string "json option"
  | GetResults
  | Scroll string "direction option"
  | GetContent

definition returns_undefined ::
  "(error + unit) \<times> CrawlingState \<times> 'w \<Rightarrow> (error + json) \<times> CrawlingState \<times> 'w" where
  "returns_undefined r = (case r of (Inl e, s) \<Rightarrow> (Inl e, s) | (Inr _, s) \<Rightarrow> (Inr JNull, s))"

definition invoke ::
  "'w driver \<Rightarrow> page \<Rightarrow> call \<Rightarrow> CrawlingState \<times> 'w
   \<Rightarrow> ((error + json) \<times> CrawlingState \<times> 'w) option" where
  "invoke d pg c s =
     (case c of
        Screenshot path \<Rightarrow> Some (returns_undefined (screenshot d pg path s))
      | LoadCookiesFromStorage path \<Rightarrow> Some (loadCookiesFromStorage d path s)
      | SetCookies input \<Rightarrow> Some (returns_undefined (setCookies d pg input s))
      | GetCookies \<Rightarrow> Some (returns_undefined (getCookies d pg s))
      | Close id_arg \<Rightarrow> Some (returns_undefined (close d pg id_arg s))
      | Click selector \<Rightarrow> Some (returns_undefined (click d pg selector s))
      | Discover \<Rightarrow> Some (returns_undefined (discover d pg s))
      | Navigate url options_arg \<Rightarrow> Some (returns_undefined (navigate d pg url options_arg s))
      | GetResults \<Rightarrow> Some (returns_undefined (getResults d pg s))
      | Scroll selector direction_arg \<Rightarrow>
          map_option returns_undefined (scroll d pg selector direction_arg s)
      | GetContent \<Rightarrow> Some (returns_undefined (getContent d pg s)))"

text \<open>
  A driver routine that awaits one call after the other, as \<^verbatim>\<open>run\<close> does: an exception
  ends it, a call that never returns keeps it from returning. Here no request and no
  response is observed while the calls run, so nothing but the calls pushes.
\<close>

fun invoke_all ::
  "'w driver \<Rightarrow> page \<Rightarrow> call list \<Rightarrow> CrawlingState \<times> 'w
   \<Rightarrow> ((error + unit) \<times> CrawlingState \<times> 'w) option" where
  "invoke_all d pg [] s = Some (Inr (), s)"
| "invoke_all d pg (c # cs) s =
     (case invoke d pg c s of
        None \<Rightarrow> None
      | Some (Inl e, s1) \<Rightarrow> Some (Inl e, s1)
      | Some (Inr _, s1) \<Rightarrow> invoke_all d pg cs s1)"

text \<open>The operations that contain a \<^verbatim>\<open>statePush\<close>.\<close>

definition pushes_record :: "call \<Rightarrow> bool" where
  "pushes_record c =
     (case c of
        LoadCookiesFromStorage _ \<Rightarrow> False
      | SetCookies _ \<Rightarrow> False
      | Close _ \<Rightarrow> False
      | _ \<Rightarrow> True)"

datatype network_event = Request request | Response response

definition on_event :: "network_event \<Rightarrow> CrawlingState \<Rightarrow> CrawlingState" where
  "on_event ev st = (case ev of Request r \<Rightarrow> snd (on_request r st) | Response r \<Rightarrow> on_response r st)"







section \<open>A simulated browser\<close>

text \<open>
  A driver to run the services against: a page described by a \<open>site\<close>, on which every
  driver call succeeds. \<^verbatim>\<open>page.evaluate\<close> runs the callback of the source on the
  site's document and returns its value as the driver serialises it. The scroll target
  changes as the session goes on: \<open>site_target k\<close> is the element as the document has
  it once \<open>k\<close> measurements have been made, \<open>None\<close> when it is gone. The state counts
  the measuring and the scrolling callbacks that have run.
\<close>

record site =
  site_origin :: string
  site_pagination :: "anchor list"
  site_anchors :: "anchor list"
  site_sort :: "pagination_entry sort_impl"
  site_target :: "nat \<Rightarrow> element option"
  site_meta :: "(string \<times> string) list"
  site_body :: string
  site_cookies :: "json list"
  site_snapshot :: "json option"
  site_image :: "nat list"

record counters =
  measured :: nat
  scrolled :: nat

text \<open>
  An entry as the driver returns it by value: a number that is not finite comes back as
  \<^verbatim>\<open>null\<close>.
\<close>

definition entry_json :: "pagination_entry \<Rightarrow> json" where
  "entry_json e =
     JObj [(''page'', (case entry_page e of Finite n \<Rightarrow> JNum n | _ \<Rightarrow> JNull)),
           (''href'', JStr (entry_href e)),
           (''pos'', JNum (pos e)),
           (''props'', (case props e of
                          None \<Rightarrow> JNull
                        | Some kvs \<Rightarrow> JObj (map (\<lambda>(k, v). (k, JStr v)) kvs)))]"

text \<open>
  The expression that \<^verbatim>\<open>getResults\<close> evaluates (line 196), on the \<^verbatim>\<open>meta\<close> elements
  as pairs of \<^verbatim>\<open>name\<close> and \<^verbatim>\<open>content\<close>.
\<close>

definition meta_tags :: "(string \<times> string) list \<Rightarrow> json" where
  "meta_tags metas =
     JArr (map (\<lambda>(name, content). JObj [(''name'', JStr name), (''content'', JStr content)])
            (filter (\<lambda>(name, content). length name > 0) metas))"

definition run_script :: "site \<Rightarrow> script \<Rightarrow> counters \<Rightarrow> (error + json) \<times> counters" where
  "run_script site sc w =
     (case sc of
        MeasureExtent sel dir \<Rightarrow>
          (case measure_extent (\<lambda>_. site_target site (measured w)) sel dir of
             Inl e \<Rightarrow> (Inl e, w\<lparr>measured := measured w + 1\<rparr>)
           | Inr n \<Rightarrow> (Inr (JNum n), w\<lparr>measured := measured w + 1\<rparr>))
      | SmoothScroll sel dir \<Rightarrow>
          (case smooth_scroll (\<lambda>_. site_target site (measured w)) sel dir of
             Inl e \<Rightarrow> (Inl e, w)
           | Inr _ \<Rightarrow> (Inr JNull, w\<lparr>scrolled := scrolled w + 1\<rparr>))
      | RandomDelay \<Rightarrow> (Inr JNull, w)
      | ClickElementById _ \<Rightarrow> (Inr JNull, w)
      | PaginationPages \<Rightarrow>
          (Inr (JArr (map entry_json (discover_pages (site_sort site) (site_pagination site)))), w)
      | CurrentDomainLinks \<Rightarrow>
          (Inr (JArr (map JStr (discover_links (site_origin site) (site_anchors site)))), w)
      | MetaTags \<Rightarrow> (Inr (meta_tags (site_meta site)), w)
      | BodyOuterHTML \<Rightarrow> (Inr (JStr (site_body site)), w))"

definition simulated :: "site \<Rightarrow> counters driver" where
  "simulated site =
     \<lparr>puppeteer_connect = (\<lambda>opts w. (Inr (Browser 0), w)),
      puppeteer_launch = (\<lambda>opts w. (Inr (Browser 1), w)),
      browser_newPage = (\<lambda>b w. (Inr (Page 0), w)),
      page_setRequestInterception = (\<lambda>pg on w. (Inr (), w)),
      page_on = (\<lambda>pg ev w. w),
      page_screenshot = (\<lambda>pg path w. (Inr (site_image site), w)),
      page_setCookie = (\<lambda>pg cs w. (Inr (), w)),
      page_cookies = (\<lambda>pg w. (Inr (site_cookies site), w)),
      page_waitForSelector = (\<lambda>pg sel timeout w. (Inr True, w)),
      page_evaluate = (\<lambda>pg sc w. run_script site sc w),
      page_click = (\<lambda>pg sel w. (Inr (), w)),
      page_goto = (\<lambda>pg url opts w. (Inr (), w)),
      page_title = (\<lambda>pg w. (Inr [], w)),
      page_url = (\<lambda>pg w. site_origin site),
      page_metrics = (\<lambda>pg w. (Inr (JObj []), w)),
      page_waitForNavigation = (\<lambda>pg w. (Inr (), w)),
      import_json = (\<lambda>path w. (case site_snapshot site of
                                   None \<Rightarrow> (Inl (DriverError ''Cannot find module''), w)
                                 | Some v \<Rightarrow> (Inr v, w)))\<rparr>"

text \<open>
  An insertion sort by a comparison function, for \<open>site_sort\<close>: each element in turn
  moves in front of the elements before it for as long as the comparison function,
  called with it and the element before it, returns a negative number.
\<close>

fun insert_back :: "('a \<Rightarrow> 'a \<Rightarrow> int) \<Rightarrow> 'a \<Rightarrow> 'a list \<Rightarrow> 'a list" where
  "insert_back cmp x [] = [x]"
| "insert_back cmp x (y # ys) = (if cmp x y < 0 then y # insert_back cmp x ys else x # y # ys)"

definition insertion_sort :: "'a sort_impl" where
  "insertion_sort cmp xs = rev (foldl (\<lambda>sorted_rev x. insert_back cmp x sorted_rev) [] xs)"

text \<open>
  What is asked of the engine's sort where a result depends on it: an array in which the
  comparison function, called with an element and the one before it, never returns a
  negative number is returned as it is.
\<close>

definition keeps_ascending_runs :: "'a sort_impl \<Rightarrow> bool" where
  "keeps_ascending_runs array_sort =
     (\<forall>cmp xs. (\<forall>i. Suc i < length xs \<longrightarrow> 0 \<le> cmp (xs ! Suc i) (xs ! i)) \<longrightarrow> array_sort cmp xs = xs)"

text \<open>
  The fixtures: an element whose extent, on either axis, follows a list of extents, one
  per measurement, and which is gone when the list is used up.
\<close>

definition extent_sequence :: "int list \<Rightarrow> nat \<Rightarrow> element option" where
  "extent_sequence xs k =
     (if k < length xs then Some \<lparr>scrollWidth = xs ! k, scrollHeight = xs ! k\<rparr> else None)"

definition extent_stream :: "(nat \<Rightarrow> int) \<Rightarrow> nat \<Rightarrow> element option" where
  "extent_stream f k = Some \<lparr>scrollWidth = f k, scrollHeight = f k\<rparr>"

text \<open>
  The value a measurement is compared with in the loop condition: the measurement before
  it, and for the first one the initial value of \<^verbatim>\<open>previousSize\<close>.
\<close>

definition previous :: "(nat \<Rightarrow> int) \<Rightarrow> nat \<Rightarrow> int" where
  "previous f k = (if k = 0 then 0 else f (k - 1))"

definition plain_site :: site where
  "plain_site =
     \<lparr>site_origin = ''https://www.myjob.mu'',
      site_pagination = [],
      site_anchors = [],
      site_sort = insertion_sort,
      site_target = (\<lambda>k. None),
      site_meta = [],
      site_body = [],
      site_cookies = [],
      site_snapshot = None,
      site_image = []\<rparr>"

text \<open>
  Two extent streams: one that settles at its third value, one that grows for ever; and a
  document whose only element is wider than it is tall.
\<close>

definition settling :: "nat \<Rightarrow> int" where
  "settling k = (if k = 0 then 100 else 250)"

definition growing :: "nat \<Rightarrow> int" where
  "growing k = int k + 1"

definition feed_document :: "string \<Rightarrow> element option" where
  "feed_document sel = (if sel = ''#feed'' then Some \<lparr>scrollWidth = 300, scrollHeight = 700\<rparr> else None)"

text \<open>
  For stating what \<^verbatim>\<open>loadCookiesFromStorage\<close> finds: the cookie set of a record that
  the cookies service pushed, \<open>None\<close> for any other entry of a snapshot. And a
  snapshot of a session that pushed its cookies twice.
\<close>

definition cookies_record :: "json \<Rightarrow> json option" where
  "cookies_record log = (case log of JObj kvs \<Rightarrow> map_of kvs ''CookiesService'' | _ \<Rightarrow> None)"

definition old_cookie :: json where
  "old_cookie = JObj [(''name'', JStr ''sid''), (''value'', JStr ''old'')]"

definition new_cookie :: json where
  "new_cookie = JObj [(''name'', JStr ''sid''), (''value'', JStr ''new'')]"

definition two_pushes :: "json list" where
  "two_pushes =
     [JObj [(''NavigationService'', JArr [])],
      JObj [(''CookiesService'', JArr [old_cookie])],
      JObj [(''CookiesService'', JArr [new_cookie])]]"

text \<open>
  The calls that \<^verbatim>\<open>run\<close> makes on the services (lines 475-495), when no snapshot is
  stored yet.
\<close>

definition crawl :: "call list" where
  "crawl =
     [LoadCookiesFromStorage ''output.json'',
      SetCookies (Some []),
      Navigate ''https://www.myjob.mu/ShowResults.aspx?Page=2'' None,
      Close None,
      Discover,
      GetResults,
      GetCookies,
      Screenshot ''screenshot.png'',
      GetContent]"

text \<open>
  A results page with pagination anchors labelled 1 to 5, each with \<^verbatim>\<open>Page=N\<close> in its
  query string, and with a few more anchors: two to the same page of the site, one to a
  page without the suffix, one to another site. \<open>listed k n label\<close> is the object
  expected for the anchor at position \<open>k\<close> whose label reads as the number \<open>n\<close>.
\<close>

definition results_url :: "string \<Rightarrow> string" where
  "results_url label =
     ''https://www.myjob.mu/ShowResults.aspx?Category=39&SortBy=MostRecent&Page='' @ label"

definition page_link :: "nat \<Rightarrow> string \<Rightarrow> anchor" where
  "page_link k label = \<lparr>node = k, textContent = Some label, href = results_url label\<rparr>"

definition five_pages :: "anchor list" where
  "five_pages =
     [page_link 0 ''1'', page_link 1 ''2'', page_link 2 ''3'', page_link 3 ''4'', page_link 4 ''5'']"

definition more_anchors :: "anchor list" where
  "more_anchors =
     [\<lparr>node = 5, textContent = Some ''Home'', href = ''https://www.myjob.mu/Default.aspx''\<rparr>,
      \<lparr>node = 6, textContent = Some ''Jobs'', href = ''https://www.myjob.mu/Jobs.aspx''\<rparr>,
      \<lparr>node = 7, textContent = Some ''Start'', href = ''https://www.myjob.mu/Default.aspx''\<rparr>,
      \<lparr>node = 8, textContent = Some ''About'', href = ''https://www.myjob.mu/about''\<rparr>,
      \<lparr>node = 9, textContent = Some ''Partner'', href = ''https://partner.example/Jobs.aspx''\<rparr>]"

definition results_site :: "pagination_entry sort_impl \<Rightarrow> site" where
  "results_site array_sort =
     plain_site\<lparr>site_pagination := five_pages,
                site_anchors := five_pages @ more_anchors,
                site_sort := array_sort\<rparr>"

definition listed :: "int \<Rightarrow> int \<Rightarrow> string \<Rightarrow> pagination_entry" where
  "listed k n label =
     \<lparr>entry_page = Finite n,
      entry_href = results_url label,
      pos = k,
      props = Some [(''category'', ''39''), (''sortby'', ''MostRecent''), (''page'', label)]\<rparr>"

text \<open>
  Two scroll targets whose axes differ: one of constant width whose height settles at its
  third value, one whose width settles at its third value while its height grows for
  ever.
\<close>

definition tall_feed :: "nat \<Rightarrow> element option" where
  "tall_feed k = Some \<lparr>scrollWidth = 300, scrollHeight = settling k\<rparr>"

definition wide_feed :: "nat \<Rightarrow> element option" where
  "wide_feed k = Some \<lparr>scrollWidth = settling k, scrollHeight = growing k\<rparr>"

text \<open>
  A pagination container with more in it than the five numbered anchors: a label that
  is no number, a label with a no-break space in front and a line feed behind, a
  negative label, an anchor whose address is only spaces and one without label and
  address. And two anchors whose addresses start with the characters of the origin
  without being of that origin: another host, and another port.
\<close>

definition labelled :: "nat \<Rightarrow> string \<Rightarrow> string \<Rightarrow> anchor" where
  "labelled k label url = \<lparr>node = k, textContent = Some label, href = url\<rparr>"

definition pagination_bar :: "anchor list" where
  "pagination_bar =
     [labelled 0 ''Previous'' (results_url ''1''),
      labelled 1 ''1'' (results_url ''1''),
      labelled 2 ([CHR 0xC2, CHR 0xA0] @ ''2'' @ [CHR 0x0A]) (results_url ''2''),
      labelled 3 ''-1'' (results_url ''0''),
      labelled 4 ''3'' (results_url ''3''),
      labelled 5 ''6'' ''  '',
      labelled 6 ''4'' (results_url ''4''),
      labelled 7 ''5'' (results_url ''5''),
      \<lparr>node = 8, textContent = None, href = []\<rparr>]"

definition lookalike_anchors :: "anchor list" where
  "lookalike_anchors =
     [labelled 10 ''Mirror'' ''https://www.myjob.mu.evil.example/B.aspx'',
      labelled 11 ''Admin'' ''https://www.myjob.mu:8443/C.aspx'']"

text \<open>
  For stating which addresses are of the page's origin: scheme, host and port of an
  address as they are written in it.
\<close>

definition address_origin :: "string \<Rightarrow> string" where
  "address_origin url =
     (let scheme = takeWhile (\<lambda>c. c \<noteq> CHR '':'') url;
          rest = drop (length scheme + 3) url
      in scheme @ ''://'' @ takeWhile (\<lambda>c. c \<notin> set ''/?#'') rest)"

definition busy_site :: "pagination_entry sort_impl \<Rightarrow> site" where
  "busy_site array_sort =
     plain_site\<lparr>site_pagination := pagination_bar,
                site_anchors := pagination_bar @ more_anchors @ lookalike_anchors,
                site_sort := array_sort\<rparr>"




definition start :: counters where
  "start = \<lparr>measured = 0, scrolled = 0\<rparr>"

section \<open>Results\<close>

lemma indexOf_nonneg_iff: "0 \<le> indexOf xs x \<longleftrightarrow> x \<in> set xs"
  by (induction xs) (auto simp: Let_def)

text \<open>
  C8. A manager on which \<^verbatim>\<open>initialize\<close> has assigned nothing yet (as the constructor
  leaves it) answers a read of \<^verbatim>\<open>page\<close> with the error "Missing page instance" and a
  read of \<^verbatim>\<open>browser\<close> with the error "Missing browser instance"; neither returns a
  value.
\<close>

theorem uninitialized_accessors_fail:
  "get_page new_BrowserManager = Inl (Error ''Missing page instance'')
   \<and> get_browser new_BrowserManager = Inl (Error ''Missing browser instance'')
   \<and> (priv_page m = None \<longrightarrow> get_page m = Inl (Error ''Missing page instance''))
   \<and> (priv_browser m = None \<longrightarrow> get_browser m = Inl (Error ''Missing browser instance''))"
  by (simp add: get_page_def get_browser_def new_BrowserManager_def)

theorem uninitialized_accessors_fail_witness:
  "priv_page new_BrowserManager = None \<and> priv_browser new_BrowserManager = None
   \<and> get_page new_BrowserManager = Inl (Error ''Missing page instance'')
   \<and> get_browser new_BrowserManager = Inl (Error ''Missing browser instance'')"
  using uninitialized_accessors_fail [of new_BrowserManager]
  by (simp add: new_BrowserManager_def)


subsection \<open>The request interceptor\<close>

text \<open>
  C7. For every request the handler is called with, the record it appends has
  \<^verbatim>\<open>aborted\<close> true exactly when the resource type is \<^verbatim>\<open>font\<close>, \<^verbatim>\<open>stylesheet\<close> or
  \<^verbatim>\<open>other\<close>; the request is then aborted, and every other request is continued.
\<close>

theorem request_interceptor_verdict:
  "on_request r st =
     (if req_resourceType r \<in> {''font'', ''stylesheet'', ''other''} then Abort else Continue,
      st @ [JObj [(''RequestInterceptorListener'',
              JArr [JObj [(''method'', JStr (req_method r)),
                          (''url'', JStr (req_url r)),
                          (''resourceType'', JStr (req_resourceType r)),
                          (''headers'', req_headers r),
                          (''initiator'', req_initiator r),
                          (''aborted'',
                           JBool (req_resourceType r \<in> {''font'', ''stylesheet'', ''other''}))]])]])"
  by (simp add: on_request_def request_aborted_def request_record_def statePush_def
      indexOf_nonneg_iff Let_def)

theorem request_interceptor_verdict_witness:
  "fst (on_request \<lparr>req_headers = JObj [], req_url = ''https://www.myjob.mu/a.woff'',
                    req_method = ''GET'', req_initiator = JNull, req_resourceType = ''font''\<rparr> [])
     = Abort
   \<and> fst (on_request \<lparr>req_headers = JObj [], req_url = ''https://www.myjob.mu/'',
                    req_method = ''GET'', req_initiator = JNull, req_resourceType = ''document''\<rparr> [])
     = Continue"
  using
    request_interceptor_verdict [of "\<lparr>req_headers = JObj [], req_url = ''https://www.myjob.mu/a.woff'',
                    req_method = ''GET'', req_initiator = JNull, req_resourceType = ''font''\<rparr>" "[]"]
    request_interceptor_verdict [of "\<lparr>req_headers = JObj [], req_url = ''https://www.myjob.mu/'',
                    req_method = ''GET'', req_initiator = JNull, req_resourceType = ''document''\<rparr>" "[]"]
  by simp

subsection \<open>Session start without a browser\<close>

text \<open>
  C10. When the options have neither a \<^verbatim>\<open>browserWSEndpoint\<close> nor an
  \<^verbatim>\<open>executablePath\<close> property and the manager has no browser yet, \<^verbatim>\<open>initialize\<close>
  fails with "Missing browser instance": the manager is as it was, and no driver call
  has been made, so no page is open and no listener is attached.
\<close>

theorem missing_browser_on_empty_options:
  "\<not> has_key ''browserWSEndpoint'' opts \<Longrightarrow> \<not> has_key ''executablePath'' opts \<Longrightarrow>
   priv_browser m = None \<Longrightarrow>
   initialize d opts (m, w) = (Inl (Error ''Missing browser instance''), m, w)"
  by (simp add: initialize_def get_browser_def)

theorem missing_browser_on_empty_options_witness:
  "\<not> has_key ''browserWSEndpoint'' [(''ignoreHTTPSErrors'', JBool True)]
   \<and> \<not> has_key ''executablePath'' [(''ignoreHTTPSErrors'', JBool True)]
   \<and> priv_browser new_BrowserManager = None
   \<and> initialize (simulated plain_site) [(''ignoreHTTPSErrors'', JBool True)] (new_BrowserManager, start)
       = (Inl (Error ''Missing browser instance''), new_BrowserManager, start)"
  using missing_browser_on_empty_options
    [of "[(''ignoreHTTPSErrors'', JBool True)]" new_BrowserManager "simulated plain_site" start]
  by (simp add: has_key_def new_BrowserManager_def)

subsection \<open>The scroll loop\<close>

lemma scroll_pass_simulated:
  assumes "site_target site k = Some \<lparr>scrollWidth = x, scrollHeight = x\<rparr>"
  shows "scroll_pass (simulated site) pg sel dir \<lparr>measured = k, scrolled = j\<rparr>
         = (Inr (JNum x), \<lparr>measured = Suc k, scrolled = Suc j\<rparr>)"
  using assms
  by (simp add: scroll_pass_def simulated_def run_script_def smooth_scroll_def measure_extent_def)

lemma scroll_loop_halts:
  assumes tgt: "\<forall>i\<le>n. site_target site i = Some \<lparr>scrollWidth = f i, scrollHeight = f i\<rparr>"
    and grow: "\<forall>i<n. f i \<noteq> previous f i"
    and stop: "f n = previous f n"
  shows "k \<le> n \<Longrightarrow>
         scroll_loop (simulated site) pg sel dir (JNum (previous f k)) (JNum (f k))
           \<lparr>measured = Suc k, scrolled = k\<rparr>
         = Some (Inr (), \<lparr>measured = Suc n, scrolled = n\<rparr>)"
proof (induction "n - k" arbitrary: k)
  case 0
  then have "k = n" by simp
  with stop show ?case
    by (subst scroll_loop.simps) (simp add: strict_equal_def)
next
  case (Suc m)
  then have lt: "k < n" and le: "Suc k \<le> n" and m: "m = n - Suc k" by simp_all
  from grow lt have ne: "f k \<noteq> previous f k" by simp
  from tgt le have t: "site_target site (Suc k) = Some \<lparr>scrollWidth = f (Suc k), scrollHeight = f (Suc k)\<rparr>"
    by simp
  have p: "previous f (Suc k) = f k" by (simp add: previous_def)
  from Suc.hyps(1) [OF m le] p
  have ih: "scroll_loop (simulated site) pg sel dir (JNum (f k)) (JNum (f (Suc k)))
           \<lparr>measured = Suc (Suc k), scrolled = Suc k\<rparr>
         = Some (Inr (), \<lparr>measured = Suc n, scrolled = n\<rparr>)" by simp
  show ?case
    by (subst scroll_loop.simps) (simp add: strict_equal_def ne scroll_pass_simulated [OF t] ih)
qed

lemma scroll_loop_diverges:
  assumes tgt: "\<forall>i. site_target site i = Some \<lparr>scrollWidth = f i, scrollHeight = f i\<rparr>"
    and grow: "\<forall>i. f i \<noteq> previous f i"
  shows "scroll_loop (simulated site) pg sel dir (JNum (previous f k)) (JNum (f k))
           \<lparr>measured = Suc k, scrolled = k\<rparr> = None"
proof (rule ccontr)
  assume "scroll_loop (simulated site) pg sel dir (JNum (previous f k)) (JNum (f k))
           \<lparr>measured = Suc k, scrolled = k\<rparr> \<noteq> None"
  then obtain y where y: "scroll_loop (simulated site) pg sel dir (JNum (previous f k)) (JNum (f k))
           \<lparr>measured = Suc k, scrolled = k\<rparr> = Some y" by auto
  define P where "P = (\<lambda>(d::counters driver) (pg::page) (sel::string) (dir::direction) prev cur w
       (r::(error + unit) \<times> counters).
        \<forall>j. d = simulated site \<and> prev = JNum (previous f j) \<and> cur = JNum (f j)
          \<and> w = \<lparr>measured = Suc j, scrolled = j\<rparr> \<longrightarrow> False)"
  have "P (simulated site) pg sel dir (JNum (previous f k)) (JNum (f k))
          \<lparr>measured = Suc k, scrolled = k\<rparr> y"
  proof (rule scroll_loop.raw_induct [OF _ y], goal_cases)
    case (1 loop d pg sel dir prev cur w y)
    show ?case unfolding P_def
    proof (intro allI impI)
      fix j
      assume a: "d = simulated site \<and> prev = JNum (previous f j) \<and> cur = JNum (f j)
          \<and> w = \<lparr>measured = Suc j, scrolled = j\<rparr>"
      from tgt have t: "site_target site (Suc j) = Some \<lparr>scrollWidth = f (Suc j), scrollHeight = f (Suc j)\<rparr>"
        by simp
      from grow have ne: "f j \<noteq> previous f j" by simp
      from 1(2) a ne have "loop (simulated site) pg sel dir (JNum (f j)) (JNum (f (Suc j)))
          \<lparr>measured = Suc (Suc j), scrolled = Suc j\<rparr> = Some y"
        by (simp add: strict_equal_def scroll_pass_simulated [OF t])
      from 1(1) [OF this]
      have "\<forall>i. simulated site = simulated site \<and> JNum (f j) = JNum (previous f i)
              \<and> JNum (f (Suc j)) = JNum (f i)
              \<and> \<lparr>measured = Suc (Suc j), scrolled = Suc j\<rparr> = \<lparr>measured = Suc i, scrolled = i\<rparr>
              \<longrightarrow> False"
        unfolding P_def .
      from this [rule_format, of "Suc j"] show False
        by (simp add: previous_def)
    qed
  qed
  then show False unfolding P_def by blast
qed


lemma scroll_simulated_start:
  assumes "site_target site 0 = Some \<lparr>scrollWidth = x, scrollHeight = x\<rparr>"
  shows "scroll (simulated site) pg sel dir_arg (st, start)
         = map_option (\<lambda>(r, w). (r,
             st @ [JObj [(''ScrollService'',
                     JArr [JObj [(''selector'', JStr sel),
                                 (''direction'', JStr (direction_name
                                    (case dir_arg of None \<Rightarrow> Vertical | Some v \<Rightarrow> v)))]])]], w))
             (scroll_loop (simulated site) pg sel (case dir_arg of None \<Rightarrow> Vertical | Some v \<Rightarrow> v)
                (JNum 0) (JNum x) \<lparr>measured = Suc 0, scrolled = 0\<rparr>)"
proof -
  have w: "page_waitForSelector (simulated site) pg sel (Some 60000) start = (Inr True, start)"
    by (simp add: simulated_def)
  have m: "page_evaluate (simulated site) pg (MeasureExtent sel d) start
           = (Inr (JNum x), \<lparr>measured = Suc 0, scrolled = 0\<rparr>)" for d
    using assms by (simp add: simulated_def run_script_def measure_extent_def start_def)
  show ?thesis
    by (simp add: scroll_def Let_def w m statePush_def)
qed

text \<open>
  C1, as the code has it. When the successive measurements are 100, 250, 250, whatever
  the direction, \<^verbatim>\<open>scroll\<close> returns after the third measurement, having run the
  scrolling callback twice. In general each measurement is compared with the one before
  it, and the first with 0, the initial \<^verbatim>\<open>previousSize\<close>: the call returns at the
  first measurement equal to the value it is compared with, after one scroll action for
  each measurement before that one. There is no bound on the passes: while the driver
  calls succeed and no measurement equals the value it is compared with, the call does
  not return.
\<close>

theorem scroll_until_stable:
  "scroll (simulated (plain_site\<lparr>site_target := extent_sequence [100, 250, 250]\<rparr>)) pg sel dir_arg (st, start)
     = Some (Inr (),
             st @ [JObj [(''ScrollService'',
                     JArr [JObj [(''selector'', JStr sel),
                                 (''direction'', JStr (direction_name
                                    (case dir_arg of None \<Rightarrow> Vertical | Some v \<Rightarrow> v)))]])]],
             \<lparr>measured = 3, scrolled = 2\<rparr>)
   \<and> ((\<forall>i<n. f i \<noteq> previous f i) \<and> f n = previous f n \<longrightarrow>
        scroll (simulated (plain_site\<lparr>site_target := extent_stream f\<rparr>)) pg sel dir_arg (st, start)
        = Some (Inr (),
             st @ [JObj [(''ScrollService'',
                     JArr [JObj [(''selector'', JStr sel),
                                 (''direction'', JStr (direction_name
                                    (case dir_arg of None \<Rightarrow> Vertical | Some v \<Rightarrow> v)))]])]],
             \<lparr>measured = Suc n, scrolled = n\<rparr>))
   \<and> ((\<forall>i. f i \<noteq> previous f i) \<longrightarrow>
        scroll (simulated (plain_site\<lparr>site_target := extent_stream f\<rparr>)) pg sel dir_arg (st, start)
        = None)"
proof (intro conjI impI)
  let ?fix = "plain_site\<lparr>site_target := extent_sequence [100, 250, 250]\<rparr>"
  let ?g = "\<lambda>k. [100, 250, 250 :: int] ! k"
  have tgt: "\<forall>i\<le>2. site_target ?fix i = Some \<lparr>scrollWidth = ?g i, scrollHeight = ?g i\<rparr>"
    by (simp add: extent_sequence_def)
  have grow: "\<forall>i<2. ?g i \<noteq> previous ?g i"
    by (simp add: previous_def less_Suc_eq numeral_2_eq_2)
  have stop: "?g 2 = previous ?g 2"
    by (simp add: previous_def)
  have t0: "site_target ?fix 0 = Some \<lparr>scrollWidth = 100, scrollHeight = 100\<rparr>"
    by (simp add: extent_sequence_def)
  from scroll_loop_halts [OF tgt grow stop, of 0]
  have "scroll_loop (simulated ?fix) pg sel d (JNum 0) (JNum 100) \<lparr>measured = Suc 0, scrolled = 0\<rparr>
        = Some (Inr (), \<lparr>measured = 3, scrolled = 2\<rparr>)" for d
    by (simp add: previous_def numeral_3_eq_3 numeral_2_eq_2)
  then show "scroll (simulated ?fix) pg sel dir_arg (st, start)
     = Some (Inr (),
             st @ [JObj [(''ScrollService'',
                     JArr [JObj [(''selector'', JStr sel),
                                 (''direction'', JStr (direction_name
                                    (case dir_arg of None \<Rightarrow> Vertical | Some v \<Rightarrow> v)))]])]],
             \<lparr>measured = 3, scrolled = 2\<rparr>)"
    by (simp add: scroll_simulated_start [OF t0])
next
  let ?s = "plain_site\<lparr>site_target := extent_stream f\<rparr>"
  assume a: "(\<forall>i<n. f i \<noteq> previous f i) \<and> f n = previous f n"
  have tgt: "\<forall>i\<le>n. site_target ?s i = Some \<lparr>scrollWidth = f i, scrollHeight = f i\<rparr>"
    by (simp add: extent_stream_def)
  from a have grow: "\<forall>i<n. f i \<noteq> previous f i" and stop: "f n = previous f n" by simp_all
  have t0: "site_target ?s 0 = Some \<lparr>scrollWidth = f 0, scrollHeight = f 0\<rparr>"
    by (simp add: extent_stream_def)
  from scroll_loop_halts [OF tgt grow stop, of 0]
  have "scroll_loop (simulated ?s) pg sel d (JNum 0) (JNum (f 0)) \<lparr>measured = Suc 0, scrolled = 0\<rparr>
        = Some (Inr (), \<lparr>measured = Suc n, scrolled = n\<rparr>)" for d
    by (simp add: previous_def)
  then show "scroll (simulated ?s) pg sel dir_arg (st, start)
        = Some (Inr (),
             st @ [JObj [(''ScrollService'',
                     JArr [JObj [(''selector'', JStr sel),
                                 (''direction'', JStr (direction_name
                                    (case dir_arg of None \<Rightarrow> Vertical | Some v \<Rightarrow> v)))]])]],
             \<lparr>measured = Suc n, scrolled = n\<rparr>)"
    by (simp add: scroll_simulated_start [OF t0])
next
  let ?s = "plain_site\<lparr>site_target := extent_stream f\<rparr>"
  assume grow: "\<forall>i. f i \<noteq> previous f i"
  have tgt: "\<forall>i. site_target ?s i = Some \<lparr>scrollWidth = f i, scrollHeight = f i\<rparr>"
    by (simp add: extent_stream_def)
  have t0: "site_target ?s 0 = Some \<lparr>scrollWidth = f 0, scrollHeight = f 0\<rparr>"
    by (simp add: extent_stream_def)
  from scroll_loop_diverges [OF tgt grow, of _ _ _ 0]
  have "scroll_loop (simulated ?s) pg sel d (JNum 0) (JNum (f 0)) \<lparr>measured = Suc 0, scrolled = 0\<rparr>
        = None" for d
    by (simp add: previous_def)
  then show "scroll (simulated ?s) pg sel dir_arg (st, start) = None"
    by (simp add: scroll_simulated_start [OF t0])
qed

theorem scroll_until_stable_witness:
  "scroll (simulated (plain_site\<lparr>site_target := extent_stream settling\<rparr>)) (Page 0) ''#feed'' (Some Vertical) ([], start)
     = Some (Inr (),
             [JObj [(''ScrollService'',
                     JArr [JObj [(''selector'', JStr ''#feed''), (''direction'', JStr ''vertical'')]])]],
             \<lparr>measured = 3, scrolled = 2\<rparr>)
   \<and> scroll (simulated (plain_site\<lparr>site_target := extent_stream growing\<rparr>)) (Page 0) ''#feed'' (Some Vertical) ([], start)
     = None"
proof -
  have h1: "(\<forall>i<2. settling i \<noteq> previous settling i) \<and> settling 2 = previous settling 2"
    by (simp add: settling_def previous_def)
  have h2: "\<forall>i. growing i \<noteq> previous growing i"
    by (simp add: growing_def previous_def)
  from h1 h2
    scroll_until_stable [of "Page 0" "''#feed''" "Some Vertical" "[]" 2 settling]
    scroll_until_stable [of "Page 0" "''#feed''" "Some Vertical" "[]" 0 growing]
  show ?thesis
    by (simp add: direction_name_def numeral_3_eq_3 numeral_2_eq_2)
qed

text \<open>
  The claim as written fails on an element whose extent is 0: the call returns after a
  single measurement, which no other measurement precedes, and without a scroll action.
\<close>

theorem scroll_stops_on_zero_extent:
  "scroll (simulated (plain_site\<lparr>site_target := extent_sequence [0]\<rparr>)) (Page 0) ''#feed'' None ([], start)
     = Some (Inr (),
             [JObj [(''ScrollService'',
                     JArr [JObj [(''selector'', JStr ''#feed''), (''direction'', JStr ''vertical'')]])]],
             \<lparr>measured = 1, scrolled = 0\<rparr>)"
proof -
  have t0: "site_target (plain_site\<lparr>site_target := extent_sequence [0]\<rparr>) 0
            = Some \<lparr>scrollWidth = 0, scrollHeight = 0\<rparr>"
    by (simp add: extent_sequence_def)
  have "scroll_loop (simulated (plain_site\<lparr>site_target := extent_sequence [0]\<rparr>)) (Page 0) ''#feed'' Vertical
          (JNum 0) (JNum 0) \<lparr>measured = Suc 0, scrolled = 0\<rparr>
        = Some (Inr (), \<lparr>measured = Suc 0, scrolled = 0\<rparr>)"
    by (subst scroll_loop.simps) (simp add: strict_equal_def)
  then show ?thesis
    by (simp add: scroll_simulated_start [OF t0] direction_name_def)
qed


subsection \<open>What the scroll loop measures\<close>

lemma scroll_pass_on_element:
  assumes "site_target site k = Some el"
  shows "scroll_pass (simulated site) pg sel dir \<lparr>measured = k, scrolled = j\<rparr>
         = (Inr (JNum (if dir = Horizontal \<or> dir = Both then scrollWidth el else scrollHeight el)),
            \<lparr>measured = Suc k, scrolled = Suc j\<rparr>)"
  using assms
  by (simp add: scroll_pass_def simulated_def run_script_def smooth_scroll_def measure_extent_def)

lemma scroll_loop_halts_on:
  assumes tgt: "\<forall>i\<le>n. site_target site i = Some (el i)"
    and f: "f = (\<lambda>i. if dir = Horizontal \<or> dir = Both then scrollWidth (el i) else scrollHeight (el i))"
    and grow: "\<forall>i<n. f i \<noteq> previous f i"
    and stop: "f n = previous f n"
  shows "k \<le> n \<Longrightarrow>
         scroll_loop (simulated site) pg sel dir (JNum (previous f k)) (JNum (f k))
           \<lparr>measured = Suc k, scrolled = k\<rparr>
         = Some (Inr (), \<lparr>measured = Suc n, scrolled = n\<rparr>)"
proof (induction "n - k" arbitrary: k)
  case 0
  then have "k = n" by simp
  with stop show ?case
    by (subst scroll_loop.simps) (simp add: strict_equal_def)
next
  case (Suc m)
  then have lt: "k < n" and le: "Suc k \<le> n" and m: "m = n - Suc k" by simp_all
  from grow lt have ne: "f k \<noteq> previous f k" by simp
  from tgt le have t: "site_target site (Suc k) = Some (el (Suc k))" by simp
  have p: "previous f (Suc k) = f k" by (simp add: previous_def)
  have x: "(if dir = Horizontal \<or> dir = Both then scrollWidth (el (Suc k)) else scrollHeight (el (Suc k)))
           = f (Suc k)" by (simp add: f)
  from Suc.hyps(1) [OF m le] p
  have ih: "scroll_loop (simulated site) pg sel dir (JNum (f k)) (JNum (f (Suc k)))
           \<lparr>measured = Suc (Suc k), scrolled = Suc k\<rparr>
         = Some (Inr (), \<lparr>measured = Suc n, scrolled = n\<rparr>)" by simp
  show ?case
    by (subst scroll_loop.simps)
       (simp only: strict_equal_def ne scroll_pass_on_element [OF t] x ih
          prod.case sum.case json.case json.inject if_True not_False_eq_True simp_thms)
qed

lemma scroll_loop_diverges_on:
  assumes tgt: "\<forall>i. site_target site i = Some (el i)"
    and f: "f = (\<lambda>i. if dir = Horizontal \<or> dir = Both then scrollWidth (el i) else scrollHeight (el i))"
    and grow: "\<forall>i. f i \<noteq> previous f i"
  shows "scroll_loop (simulated site) pg sel dir (JNum (previous f k)) (JNum (f k))
           \<lparr>measured = Suc k, scrolled = k\<rparr> = None"
proof (rule ccontr)
  assume "scroll_loop (simulated site) pg sel dir (JNum (previous f k)) (JNum (f k))
           \<lparr>measured = Suc k, scrolled = k\<rparr> \<noteq> None"
  then obtain y where y: "scroll_loop (simulated site) pg sel dir (JNum (previous f k)) (JNum (f k))
           \<lparr>measured = Suc k, scrolled = k\<rparr> = Some y" by auto
  define P where "P = (\<lambda>(d::counters driver) (pg::page) (sel::string) (dr::direction) prev cur w
       (r::(error + unit) \<times> counters).
        \<forall>j. d = simulated site \<and> dr = dir \<and> prev = JNum (previous f j) \<and> cur = JNum (f j)
          \<and> w = \<lparr>measured = Suc j, scrolled = j\<rparr> \<longrightarrow> False)"
  have "P (simulated site) pg sel dir (JNum (previous f k)) (JNum (f k))
          \<lparr>measured = Suc k, scrolled = k\<rparr> y"
  proof (rule scroll_loop.raw_induct [OF _ y], goal_cases)
    case (1 loop d pg sel dr prev cur w y)
    show ?case unfolding P_def
    proof (intro allI impI)
      fix j
      assume a: "d = simulated site \<and> dr = dir \<and> prev = JNum (previous f j) \<and> cur = JNum (f j)
          \<and> w = \<lparr>measured = Suc j, scrolled = j\<rparr>"
      from tgt have t: "site_target site (Suc j) = Some (el (Suc j))" by simp
      from grow have ne: "f j \<noteq> previous f j" by simp
      have x: "(if dir = Horizontal \<or> dir = Both then scrollWidth (el (Suc j)) else scrollHeight (el (Suc j)))
           = f (Suc j)" by (simp add: f)
      from 1(2) a ne have "loop (simulated site) pg sel dir (JNum (f j)) (JNum (f (Suc j)))
          \<lparr>measured = Suc (Suc j), scrolled = Suc j\<rparr> = Some y"
        by (simp add: strict_equal_def scroll_pass_on_element [OF t] x)
      from 1(1) [OF this]
      have "\<forall>i. simulated site = simulated site \<and> dir = dir \<and> JNum (f j) = JNum (previous f i)
              \<and> JNum (f (Suc j)) = JNum (f i)
              \<and> \<lparr>measured = Suc (Suc j), scrolled = Suc j\<rparr> = \<lparr>measured = Suc i, scrolled = i\<rparr>
              \<longrightarrow> False"
        unfolding P_def .
      from this [rule_format, of "Suc j"] show False
        by (simp add: previous_def)
    qed
  qed
  then show False unfolding P_def by blast
qed

lemma scroll_start_on_element:
  assumes "site_target site 0 = Some el"
  shows "scroll (simulated site) pg sel (Some dir) (st, start)
         = map_option (\<lambda>(r, w). (r,
             st @ [JObj [(''ScrollService'',
                     JArr [JObj [(''selector'', JStr sel),
                                 (''direction'', JStr (direction_name dir))]])]], w))
             (scroll_loop (simulated site) pg sel dir (JNum 0)
                (JNum (if dir = Horizontal \<or> dir = Both then scrollWidth el else scrollHeight el))
                \<lparr>measured = Suc 0, scrolled = 0\<rparr>)"
proof -
  have w: "page_waitForSelector (simulated site) pg sel (Some 60000) start = (Inr True, start)"
    by (simp add: simulated_def)
  have m: "page_evaluate (simulated site) pg (MeasureExtent sel dir) start
           = (Inr (JNum (if dir = Horizontal \<or> dir = Both then scrollWidth el else scrollHeight el)),
              \<lparr>measured = Suc 0, scrolled = 0\<rparr>)"
    using assms by (simp add: simulated_def run_script_def measure_extent_def start_def)
  show ?thesis
    by (simp add: scroll_def Let_def w m statePush_def)
qed

lemma scroll_halts_on:
  assumes tgt: "\<forall>i\<le>n. site_target site i = Some (el i)"
    and f: "f = (\<lambda>i. if dir = Horizontal \<or> dir = Both then scrollWidth (el i) else scrollHeight (el i))"
    and grow: "\<forall>i<n. f i \<noteq> previous f i"
    and stop: "f n = previous f n"
  shows "scroll (simulated site) pg sel (Some dir) (st, start)
         = Some (Inr (),
             st @ [JObj [(''ScrollService'',
                     JArr [JObj [(''selector'', JStr sel),
                                 (''direction'', JStr (direction_name dir))]])]],
             \<lparr>measured = Suc n, scrolled = n\<rparr>)"
proof -
  from tgt have t0: "site_target site 0 = Some (el 0)" by simp
  have x: "(if dir = Horizontal \<or> dir = Both then scrollWidth (el 0) else scrollHeight (el 0)) = f 0"
    by (simp add: f)
  from scroll_loop_halts_on [OF tgt f grow stop, of 0]
  have "scroll_loop (simulated site) pg sel dir (JNum 0) (JNum (f 0)) \<lparr>measured = Suc 0, scrolled = 0\<rparr>
        = Some (Inr (), \<lparr>measured = Suc n, scrolled = n\<rparr>)"
    by (simp add: previous_def)
  then show ?thesis
    unfolding scroll_start_on_element [OF t0] x by simp
qed

lemma scroll_diverges_on:
  assumes tgt: "\<forall>i. site_target site i = Some (el i)"
    and f: "f = (\<lambda>i. if dir = Horizontal \<or> dir = Both then scrollWidth (el i) else scrollHeight (el i))"
    and grow: "\<forall>i. f i \<noteq> previous f i"
  shows "scroll (simulated site) pg sel (Some dir) (st, start) = None"
proof -
  from tgt have t0: "site_target site 0 = Some (el 0)" by simp
  have x: "(if dir = Horizontal \<or> dir = Both then scrollWidth (el 0) else scrollHeight (el 0)) = f 0"
    by (simp add: f)
  from scroll_loop_diverges_on [OF tgt f grow, of _ _ 0]
  have "scroll_loop (simulated site) pg sel dir (JNum 0) (JNum (f 0)) \<lparr>measured = Suc 0, scrolled = 0\<rparr>
        = None"
    by (simp add: previous_def)
  then show ?thesis
    unfolding scroll_start_on_element [OF t0] x by simp
qed


text \<open>
  C2, as the code has it. A call of \<^verbatim>\<open>scroll\<close> with direction \<^verbatim>\<open>"both"\<close> follows the
  element's scroll width, as a call with \<^verbatim>\<open>"horizontal"\<close> does, whatever its scroll
  height is: on a page whose target is \<open>el i\<close> at the measurement \<open>i\<close>, both calls
  return at the first measurement at which the width equals the width before it (0 for
  the first), after one scroll action for each earlier measurement, and the call with
  \<^verbatim>\<open>"both"\<close> never returns when the width never does so. For every driver, the script
  the call sends before the loop and after each scroll action is the measuring callback
  with \<^verbatim>\<open>"both"\<close>: its failure is the failure of the call and of the pass. That
  callback returns what it returns for \<^verbatim>\<open>"horizontal"\<close>, the scroll width of the
  element.
\<close>

theorem scroll_both_measures_width:
  "((\<forall>i\<le>n. site_target site i = Some (el i))
      \<and> (\<forall>i<n. scrollWidth (el i) \<noteq> previous (\<lambda>k. scrollWidth (el k)) i)
      \<and> scrollWidth (el n) = previous (\<lambda>k. scrollWidth (el k)) n \<longrightarrow>
      scroll (simulated site) pg sel (Some Both) (st, start)
      = Some (Inr (),
              st @ [JObj [(''ScrollService'',
                      JArr [JObj [(''selector'', JStr sel), (''direction'', JStr ''both'')]])]],
              \<lparr>measured = Suc n, scrolled = n\<rparr>)
      \<and> scroll (simulated site) pg sel (Some Horizontal) (st, start)
      = Some (Inr (),
              st @ [JObj [(''ScrollService'',
                      JArr [JObj [(''selector'', JStr sel), (''direction'', JStr ''horizontal'')]])]],
              \<lparr>measured = Suc n, scrolled = n\<rparr>))
   \<and> ((\<forall>i. site_target site i = Some (el i))
      \<and> (\<forall>i. scrollWidth (el i) \<noteq> previous (\<lambda>k. scrollWidth (el k)) i) \<longrightarrow>
      scroll (simulated site) pg sel (Some Both) (st, start) = None)
   \<and> (page_waitForSelector d pg sel (Some 60000) w = (Inr b, w1)
      \<and> page_evaluate d pg (MeasureExtent sel Both) w1 = (Inl e, w2) \<longrightarrow>
      scroll d pg sel (Some Both) (st, w)
      = Some (Inl e,
              st @ [JObj [(''ScrollService'',
                      JArr [JObj [(''selector'', JStr sel), (''direction'', JStr ''both'')]])]],
              w2))
   \<and> (page_evaluate d pg (SmoothScroll sel Both) w = (Inr x, w1)
      \<and> page_waitForNavigation d pg w1 = (Inr y, w2)
      \<and> page_evaluate d pg (MeasureExtent sel Both) w2 = (Inl e, w3) \<longrightarrow>
      scroll_pass d pg sel Both w = (Inl e, w3))
   \<and> measure_extent querySelector sel Both = measure_extent querySelector sel Horizontal
   \<and> (querySelector sel = Some el0 \<longrightarrow> measure_extent querySelector sel Both = Inr (scrollWidth el0))"
proof (intro conjI impI)
  assume a: "(\<forall>i\<le>n. site_target site i = Some (el i))
      \<and> (\<forall>i<n. scrollWidth (el i) \<noteq> previous (\<lambda>k. scrollWidth (el k)) i)
      \<and> scrollWidth (el n) = previous (\<lambda>k. scrollWidth (el k)) n"
  then have tgt: "\<forall>i\<le>n. site_target site i = Some (el i)"
    and grow: "\<forall>i<n. scrollWidth (el i) \<noteq> previous (\<lambda>k. scrollWidth (el k)) i"
    and stop: "scrollWidth (el n) = previous (\<lambda>k. scrollWidth (el k)) n"
    by simp_all
  have fb: "(\<lambda>k. scrollWidth (el k))
            = (\<lambda>i. if Both = Horizontal \<or> Both = Both then scrollWidth (el i) else scrollHeight (el i))"
    by simp
  have fh: "(\<lambda>k. scrollWidth (el k))
            = (\<lambda>i. if Horizontal = Horizontal \<or> Horizontal = Both then scrollWidth (el i)
                    else scrollHeight (el i))"
    by simp
  from scroll_halts_on [OF tgt fb grow stop, of pg sel st]
  show "scroll (simulated site) pg sel (Some Both) (st, start)
      = Some (Inr (),
              st @ [JObj [(''ScrollService'',
                      JArr [JObj [(''selector'', JStr sel), (''direction'', JStr ''both'')]])]],
              \<lparr>measured = Suc n, scrolled = n\<rparr>)"
    by (simp add: direction_name_def)
  from scroll_halts_on [OF tgt fh grow stop, of pg sel st]
  show "scroll (simulated site) pg sel (Some Horizontal) (st, start)
      = Some (Inr (),
              st @ [JObj [(''ScrollService'',
                      JArr [JObj [(''selector'', JStr sel), (''direction'', JStr ''horizontal'')]])]],
              \<lparr>measured = Suc n, scrolled = n\<rparr>)"
    by (simp add: direction_name_def)
next
  assume a: "(\<forall>i. site_target site i = Some (el i))
      \<and> (\<forall>i. scrollWidth (el i) \<noteq> previous (\<lambda>k. scrollWidth (el k)) i)"
  then have tgt: "\<forall>i. site_target site i = Some (el i)"
    and grow: "\<forall>i. scrollWidth (el i) \<noteq> previous (\<lambda>k. scrollWidth (el k)) i"
    by simp_all
  have fb: "(\<lambda>k. scrollWidth (el k))
            = (\<lambda>i. if Both = Horizontal \<or> Both = Both then scrollWidth (el i) else scrollHeight (el i))"
    by simp
  from scroll_diverges_on [OF tgt fb grow]
  show "scroll (simulated site) pg sel (Some Both) (st, start) = None" .
next
  assume "page_waitForSelector d pg sel (Some 60000) w = (Inr b, w1)
      \<and> page_evaluate d pg (MeasureExtent sel Both) w1 = (Inl e, w2)"
  then show "scroll d pg sel (Some Both) (st, w)
      = Some (Inl e,
              st @ [JObj [(''ScrollService'',
                      JArr [JObj [(''selector'', JStr sel), (''direction'', JStr ''both'')]])]],
              w2)"
    by (simp add: scroll_def Let_def statePush_def direction_name_def)
next
  assume "page_evaluate d pg (SmoothScroll sel Both) w = (Inr x, w1)
      \<and> page_waitForNavigation d pg w1 = (Inr y, w2)
      \<and> page_evaluate d pg (MeasureExtent sel Both) w2 = (Inl e, w3)"
  then show "scroll_pass d pg sel Both w = (Inl e, w3)"
    by (simp add: scroll_pass_def)
next
  show "measure_extent querySelector sel Both = measure_extent querySelector sel Horizontal"
    by (simp add: measure_extent_def split: option.splits)
next
  assume "querySelector sel = Some el0"
  then show "measure_extent querySelector sel Both = Inr (scrollWidth el0)"
    by (simp add: measure_extent_def)
qed

theorem scroll_both_measures_width_witness:
  "scroll (simulated (plain_site\<lparr>site_target := wide_feed\<rparr>)) (Page 0) ''#feed'' (Some Both) ([], start)
   = Some (Inr (),
           [JObj [(''ScrollService'',
                   JArr [JObj [(''selector'', JStr ''#feed''), (''direction'', JStr ''both'')]])]],
           \<lparr>measured = 3, scrolled = 2\<rparr>)
   \<and> measure_extent feed_document ''#feed'' Both = Inr 300"
proof -
  let ?el = "\<lambda>k. \<lparr>scrollWidth = settling k, scrollHeight = growing k\<rparr>"
  have h: "(\<forall>i\<le>2. site_target (plain_site\<lparr>site_target := wide_feed\<rparr>) i = Some (?el i))
      \<and> (\<forall>i<2. scrollWidth (?el i) \<noteq> previous (\<lambda>k. scrollWidth (?el k)) i)
      \<and> scrollWidth (?el 2) = previous (\<lambda>k. scrollWidth (?el k)) 2"
    by (simp add: wide_feed_def settling_def previous_def)
  have q: "feed_document ''#feed'' = Some \<lparr>scrollWidth = 300, scrollHeight = 700\<rparr>"
    by (simp add: feed_document_def)
  note t = scroll_both_measures_width
    [of 2 "plain_site\<lparr>site_target := wide_feed\<rparr>" ?el "Page 0" "''#feed''" "[]" _ _ _ _ _ _ _ _ _
        feed_document "\<lparr>scrollWidth = 300, scrollHeight = 700\<rparr>"]
  from t [THEN conjunct1, THEN mp, OF h]
  have s: "scroll (simulated (plain_site\<lparr>site_target := wide_feed\<rparr>)) (Page 0) ''#feed'' (Some Both) ([], start)
   = Some (Inr (),
           [] @ [JObj [(''ScrollService'',
                   JArr [JObj [(''selector'', JStr ''#feed''), (''direction'', JStr ''both'')]])]],
           \<lparr>measured = Suc 2, scrolled = 2\<rparr>)"
    by (rule conjunct1)
  from t [THEN conjunct2, THEN conjunct2, THEN conjunct2, THEN conjunct2, THEN conjunct2, THEN mp, OF q]
  have m: "measure_extent feed_document ''#feed'' Both
           = Inr (scrollWidth \<lparr>scrollWidth = 300, scrollHeight = 700\<rparr>)" .
  from s m show ?thesis by simp
qed

text \<open>
  The claim as written fails on an element of constant width 300 whose height is 100,
  250, 250 at the successive measurements: with \<^verbatim>\<open>"both"\<close> the call returns after two
  measurements and one scroll action, where the heights, which \<^verbatim>\<open>"vertical"\<close>
  measures, take three measurements and two scroll actions; and on an element 300 wide
  and 700 tall the measurement for \<^verbatim>\<open>"both"\<close> is not the height.
\<close>

theorem scroll_both_height_counterexample:
  "scroll (simulated (plain_site\<lparr>site_target := tall_feed\<rparr>)) (Page 0) ''#feed'' (Some Both) ([], start)
   = Some (Inr (),
           [JObj [(''ScrollService'',
                   JArr [JObj [(''selector'', JStr ''#feed''), (''direction'', JStr ''both'')]])]],
           \<lparr>measured = 2, scrolled = 1\<rparr>)
   \<and> scroll (simulated (plain_site\<lparr>site_target := tall_feed\<rparr>)) (Page 0) ''#feed'' (Some Vertical) ([], start)
   = Some (Inr (),
           [JObj [(''ScrollService'',
                   JArr [JObj [(''selector'', JStr ''#feed''), (''direction'', JStr ''vertical'')]])]],
           \<lparr>measured = 3, scrolled = 2\<rparr>)
   \<and> measure_extent feed_document ''#feed'' Both \<noteq> Inr 700
   \<and> measure_extent feed_document ''#feed'' Both \<noteq> measure_extent feed_document ''#feed'' Vertical"
proof -
  let ?site = "plain_site\<lparr>site_target := tall_feed\<rparr>"
  let ?el = "\<lambda>k. \<lparr>scrollWidth = 300, scrollHeight = settling k\<rparr>"
  have t1: "\<forall>i\<le>1. site_target ?site i = Some (?el i)"
    and t2: "\<forall>i\<le>2. site_target ?site i = Some (?el i)"
    by (simp_all add: tall_feed_def)
  have fb: "(\<lambda>k. 300 :: int)
            = (\<lambda>i. if Both = Horizontal \<or> Both = Both then scrollWidth (?el i) else scrollHeight (?el i))"
    by simp
  have fv: "settling
            = (\<lambda>i. if Vertical = Horizontal \<or> Vertical = Both then scrollWidth (?el i)
                    else scrollHeight (?el i))"
    by simp
  have gb: "\<forall>i<1. (\<lambda>k. 300 :: int) i \<noteq> previous (\<lambda>k. 300) i"
    and sb: "(\<lambda>k. 300 :: int) 1 = previous (\<lambda>k. 300) 1"
    by (simp_all add: previous_def)
  have gv: "\<forall>i<2. settling i \<noteq> previous settling i"
    and sv: "settling 2 = previous settling 2"
    by (simp_all add: previous_def settling_def less_Suc_eq numeral_2_eq_2)
  from scroll_halts_on [OF t1 fb gb sb, of "Page 0" "''#feed''" "[]"]
  have b: "scroll (simulated ?site) (Page 0) ''#feed'' (Some Both) ([], start)
   = Some (Inr (),
           [JObj [(''ScrollService'',
                   JArr [JObj [(''selector'', JStr ''#feed''), (''direction'', JStr ''both'')]])]],
           \<lparr>measured = 2, scrolled = 1\<rparr>)"
    by (simp add: direction_name_def numeral_2_eq_2)
  from scroll_halts_on [OF t2 fv gv sv, of "Page 0" "''#feed''" "[]"]
  have v: "scroll (simulated ?site) (Page 0) ''#feed'' (Some Vertical) ([], start)
   = Some (Inr (),
           [JObj [(''ScrollService'',
                   JArr [JObj [(''selector'', JStr ''#feed''), (''direction'', JStr ''vertical'')]])]],
           \<lparr>measured = 3, scrolled = 2\<rparr>)"
    by (simp add: direction_name_def numeral_3_eq_3 numeral_2_eq_2)
  have m: "measure_extent feed_document ''#feed'' Both \<noteq> Inr 700
   \<and> measure_extent feed_document ''#feed'' Both \<noteq> measure_extent feed_document ''#feed'' Vertical"
    by (simp add: measure_extent_def feed_document_def)
  from b v m show ?thesis by simp
qed

subsection \<open>Cookies from a stored snapshot\<close>

lemma find_cookies_first_record:
  "\<forall>l\<in>set pre. l \<noteq> JNull \<and> cookies_record l = None \<Longrightarrow> cookies_record r = Some v \<Longrightarrow>
   find_cookies (pre @ r # post) = Inr (Some v)"
proof (induction pre)
  case Nil
  then show ?case by (cases r) (auto simp: cookies_record_def)
next
  case (Cons log rest)
  then show ?case
    by (cases log) (auto simp: cookies_record_def split: option.splits)
qed

lemma find_cookies_no_record:
  "\<forall>l\<in>set logs. l \<noteq> JNull \<and> cookies_record l = None \<Longrightarrow> find_cookies logs = Inr None"
proof (induction logs)
  case Nil
  then show ?case by simp
next
  case (Cons log rest)
  then show ?case
    by (cases log) (auto simp: cookies_record_def split: option.splits)
qed

lemma find_cookies_null:
  "\<forall>l\<in>set pre. l \<noteq> JNull \<and> cookies_record l = None \<Longrightarrow>
   \<exists>e. find_cookies (pre @ JNull # post) = Inl e"
proof (induction pre)
  case Nil
  then show ?case by simp
next
  case (Cons log rest)
  then show ?case
    by (cases log) (auto simp: cookies_record_def split: option.splits)
qed

lemma scan_output_not_array:
  "\<forall>logs. v \<noteq> JArr logs \<Longrightarrow> scan_output v = Inr (JArr []) \<or> (\<exists>e. scan_output v = Inl e)"
proof (cases v)
  case (JStr cs)
  have "find_cookies (map (\<lambda>c. JStr [c]) cs) = Inr None"
    by (induction cs) simp_all
  with JStr show ?thesis by (simp add: scan_output_def iterate_def)
qed (simp_all add: scan_output_def iterate_def)

text \<open>
  C4, as the code has it. \<^verbatim>\<open>loadCookiesFromStorage\<close> never throws and leaves the log
  alone. From a snapshot that is an array it returns the cookie set of the first record,
  in the order of the snapshot, that the cookies service pushed, provided no \<^verbatim>\<open>null\<close>
  entry comes before that record; what comes behind the record does not matter. It
  returns the empty array when the array holds neither such a record nor \<^verbatim>\<open>null\<close>,
  when a \<^verbatim>\<open>null\<close> entry comes before any such record, when the snapshot is not an
  array, and when the import fails.
\<close>

theorem loadCookies_first_record:
  "(\<exists>c. loadCookiesFromStorage d path (st, w) = (Inr c, st, snd (import_json d path w)))
   \<and> (import_json d path w = (Inr (JArr (pre @ r # post)), w1)
        \<and> (\<forall>l\<in>set pre. l \<noteq> JNull \<and> cookies_record l = None)
        \<and> cookies_record r = Some c \<longrightarrow>
        fst (loadCookiesFromStorage d path (st, w)) = Inr c)
   \<and> (import_json d path w = (Inr (JArr logs), w1)
        \<and> (\<forall>l\<in>set logs. l \<noteq> JNull \<and> cookies_record l = None) \<longrightarrow>
        fst (loadCookiesFromStorage d path (st, w)) = Inr (JArr []))
   \<and> (import_json d path w = (Inr (JArr (pre @ JNull # post)), w1)
        \<and> (\<forall>l\<in>set pre. l \<noteq> JNull \<and> cookies_record l = None) \<longrightarrow>
        fst (loadCookiesFromStorage d path (st, w)) = Inr (JArr []))
   \<and> (import_json d path w = (Inr v, w1) \<and> (\<forall>xs. v \<noteq> JArr xs) \<longrightarrow>
        fst (loadCookiesFromStorage d path (st, w)) = Inr (JArr []))
   \<and> (import_json d path w = (Inl e, w1) \<longrightarrow>
        fst (loadCookiesFromStorage d path (st, w)) = Inr (JArr []))"
proof (intro conjI impI)
  show "\<exists>c. loadCookiesFromStorage d path (st, w) = (Inr c, st, snd (import_json d path w))"
    by (auto simp: loadCookiesFromStorage_def split: prod.splits sum.splits)
next
  assume a: "import_json d path w = (Inr (JArr (pre @ r # post)), w1)
        \<and> (\<forall>l\<in>set pre. l \<noteq> JNull \<and> cookies_record l = None)
        \<and> cookies_record r = Some c"
  then have "find_cookies (pre @ r # post) = Inr (Some c)"
    by (simp add: find_cookies_first_record)
  with a show "fst (loadCookiesFromStorage d path (st, w)) = Inr c"
    by (simp add: loadCookiesFromStorage_def scan_output_def iterate_def)
next
  assume a: "import_json d path w = (Inr (JArr logs), w1)
        \<and> (\<forall>l\<in>set logs. l \<noteq> JNull \<and> cookies_record l = None)"
  then have "find_cookies logs = Inr None"
    by (simp add: find_cookies_no_record)
  with a show "fst (loadCookiesFromStorage d path (st, w)) = Inr (JArr [])"
    by (simp add: loadCookiesFromStorage_def scan_output_def iterate_def)
next
  assume a: "import_json d path w = (Inr (JArr (pre @ JNull # post)), w1)
        \<and> (\<forall>l\<in>set pre. l \<noteq> JNull \<and> cookies_record l = None)"
  then obtain e where "find_cookies (pre @ JNull # post) = Inl e"
    using find_cookies_null by blast
  with a show "fst (loadCookiesFromStorage d path (st, w)) = Inr (JArr [])"
    by (simp add: loadCookiesFromStorage_def scan_output_def iterate_def)
next
  assume a: "import_json d path w = (Inr v, w1) \<and> (\<forall>xs. v \<noteq> JArr xs)"
  then have "scan_output v = Inr (JArr []) \<or> (\<exists>e. scan_output v = Inl e)"
    by (simp add: scan_output_not_array)
  with a show "fst (loadCookiesFromStorage d path (st, w)) = Inr (JArr [])"
    by (auto simp: loadCookiesFromStorage_def)
next
  assume "import_json d path w = (Inl e, w1)"
  then show "fst (loadCookiesFromStorage d path (st, w)) = Inr (JArr [])"
    by (simp add: loadCookiesFromStorage_def)
qed

theorem loadCookies_first_record_witness:
  "fst (loadCookiesFromStorage
          (simulated (plain_site\<lparr>site_snapshot := Some (JArr (two_pushes @ [JNull]))\<rparr>))
          ''output.json'' ([], start))
   = Inr (JArr [old_cookie])"
proof -
  let ?d = "simulated (plain_site\<lparr>site_snapshot := Some (JArr (two_pushes @ [JNull]))\<rparr>)"
  let ?pre = "[JObj [(''NavigationService'', JArr [])]]"
  let ?r = "JObj [(''CookiesService'', JArr [old_cookie])]"
  let ?post = "[JObj [(''CookiesService'', JArr [new_cookie])], JNull]"
  have h: "import_json ?d ''output.json'' start = (Inr (JArr (?pre @ ?r # ?post)), start)
        \<and> (\<forall>l\<in>set ?pre. l \<noteq> JNull \<and> cookies_record l = None)
        \<and> cookies_record ?r = Some (JArr [old_cookie])"
    by (simp add: simulated_def two_pushes_def cookies_record_def)
  from loadCookies_first_record
    [of ?d "''output.json''" "[]" start ?pre ?r ?post start "JArr [old_cookie]",
     THEN conjunct2, THEN conjunct1, THEN mp, OF h]
  show ?thesis .
qed

text \<open>
  The claim as written fails on a snapshot with two records of the cookies service: the
  result is not the cookie set of the most recent one.
\<close>

theorem loadCookies_most_recent_counterexample:
  "fst (loadCookiesFromStorage (simulated (plain_site\<lparr>site_snapshot := Some (JArr two_pushes)\<rparr>))
         ''output.json'' ([], start))
   \<noteq> Inr (last (List.map_filter cookies_record two_pushes))"
  by (simp add: loadCookiesFromStorage_def simulated_def scan_output_def iterate_def two_pushes_def
      List.map_filter_simps cookies_record_def old_cookie_def new_cookie_def)

subsection \<open>What the services push\<close>

lemma scroll_log:
  assumes "scroll d pg sel dir_arg (st, w) = Some (r, st', w')"
  shows "\<exists>x. st' = st @ [x]"
  using assms
  by (auto simp: scroll_def Let_def statePush_def split: prod.splits sum.splits)

lemma returns_undefined_log:
  "returns_undefined x = (r, st', w') \<Longrightarrow> \<exists>r0. x = (r0, st', w')"
  by (cases x) (auto simp: returns_undefined_def split: sum.splits)

lemma invoke_log:
  assumes "invoke d pg c (st, w) = Some (r, st', w')"
  shows "(st' = st \<or> (\<exists>x. st' = st @ [x]))
         \<and> (\<not> pushes_record c \<longrightarrow> st' = st)
         \<and> ((\<exists>v. r = Inr v) \<and> pushes_record c \<longrightarrow> (\<exists>x. st' = st @ [x]))"
proof (cases c)
  case (Screenshot path)
  with assms show ?thesis
    by (auto simp: invoke_def returns_undefined_def screenshot_def statePush_def pushes_record_def
        split: prod.splits sum.splits)
next
  case (LoadCookiesFromStorage path)
  with assms show ?thesis
    by (auto simp: invoke_def loadCookiesFromStorage_def pushes_record_def
        split: prod.splits sum.splits)
next
  case (SetCookies input)
  with assms show ?thesis
    by (auto simp: invoke_def returns_undefined_def setCookies_def pushes_record_def
        split: prod.splits sum.splits option.splits if_splits)
next
  case GetCookies
  with assms show ?thesis
    by (auto simp: invoke_def returns_undefined_def getCookies_def statePush_def pushes_record_def
        split: prod.splits sum.splits)
next
  case (Close id_arg)
  with assms show ?thesis
    by (auto simp: invoke_def returns_undefined_def close_def Let_def pushes_record_def
        split: prod.splits sum.splits if_splits)
next
  case (Click selector)
  with assms show ?thesis
    by (auto simp: invoke_def returns_undefined_def click_def Let_def statePush_def pushes_record_def
        split: prod.splits sum.splits)
next
  case Discover
  with assms show ?thesis
    by (auto simp: invoke_def returns_undefined_def discover_def statePush_def pushes_record_def
        split: prod.splits sum.splits)
next
  case (Navigate url options_arg)
  with assms show ?thesis
    by (auto simp: invoke_def returns_undefined_def navigate_def Let_def statePush_def pushes_record_def
        split: prod.splits sum.splits)
next
  case GetResults
  with assms show ?thesis
    by (auto simp: invoke_def returns_undefined_def getResults_def Let_def statePush_def pushes_record_def
        split: prod.splits sum.splits)
next
  case (Scroll selector direction_arg)
  with assms obtain r0 where "scroll d pg selector direction_arg (st, w) = Some (r0, st', w')"
    by (auto simp: invoke_def dest: returns_undefined_log)
  from scroll_log [OF this] Scroll show ?thesis
    by (auto simp: pushes_record_def)
next
  case GetContent
  with assms show ?thesis
    by (auto simp: invoke_def returns_undefined_def getContent_def statePush_def pushes_record_def
        split: prod.splits sum.splits)
qed

lemma invoke_all_length:
  "invoke_all d pg cs (st, w) = Some (Inr u, st', w') \<Longrightarrow>
   length st' = length st + length (filter pushes_record cs)"
proof (induction cs arbitrary: st w)
  case Nil
  then show ?case by simp
next
  case (Cons c cs)
  from Cons.prems obtain v st1 w1 where
    1: "invoke d pg c (st, w) = Some (Inr v, st1, w1)" and
    2: "invoke_all d pg cs (st1, w1) = Some (Inr u, st', w')"
    by (auto split: option.splits prod.splits sum.splits)
  from invoke_log [OF 1] have "length st1 = length st + (if pushes_record c then 1 else 0)"
    by auto
  with Cons.IH [OF 2] show ?case by simp
qed

lemma invoke_all_prefix:
  "invoke_all d pg cs (st, w) = Some (r, st', w') \<Longrightarrow> prefix st st'"
proof (induction cs arbitrary: st w)
  case Nil
  then show ?case by simp
next
  case (Cons c cs)
  show ?case
  proof (cases "invoke d pg c (st, w)")
    case None
    with Cons.prems show ?thesis by simp
  next
    case (Some a)
    obtain r1 st1 w1 where a: "a = (r1, st1, w1)" by (cases a) auto
    from invoke_log [OF Some [unfolded a]] have p: "prefix st st1" by auto
    show ?thesis
    proof (cases r1)
      case (Inl e)
      with Cons.prems Some a p show ?thesis by simp
    next
      case (Inr v)
      with Cons.prems Some a have "invoke_all d pg cs (st1, w1) = Some (r, st', w')" by simp
      from Cons.IH [OF this] p show ?thesis by (rule prefix_order.trans [rotated])
    qed
  qed
qed

lemma on_event_append: "\<exists>x. on_event ev st = st @ [x]"
  by (cases ev) (simp_all add: on_event_def on_request_def on_response_def statePush_def Let_def)


lemma crawl_on_plain_site:
  "map_option (\<lambda>(r, st, w). (r, length st, w)) (invoke_all (simulated plain_site) (Page 0) crawl (st, start))
   = Some (Inr (), length st + 6, start)"
  by (simp add: crawl_def invoke_def returns_undefined_def simulated_def plain_site_def
      loadCookiesFromStorage_def setCookies_def navigate_def close_def discover_def
      getResults_def getCookies_def screenshot_def getContent_def statePush_def run_script_def
      Let_def)














text \<open>
  C9. The log a service call, a sequence of service calls or a listener callback leaves
  behind starts with the log it found: the records already there stay, in their order
  and unchanged, whether the call completes or throws, and \<^verbatim>\<open>statePush\<close> puts the new
  record after them.
\<close>

theorem log_is_append_only:
  "(invoke d pg c (st, w) = Some (r, st', w') \<longrightarrow> prefix st st')
   \<and> (invoke_all d pg cs (st, w) = Some (r2, st2, w2) \<longrightarrow> prefix st st2)
   \<and> prefix st (on_event ev st)
   \<and> prefix st (statePush name data st)"
proof (intro conjI impI)
  assume "invoke d pg c (st, w) = Some (r, st', w')"
  from invoke_log [OF this] show "prefix st st'" by auto
next
  assume "invoke_all d pg cs (st, w) = Some (r2, st2, w2)"
  then show "prefix st st2" by (rule invoke_all_prefix)
next
  from on_event_append [of ev st] show "prefix st (on_event ev st)" by auto
next
  show "prefix st (statePush name data st)" by (simp add: statePush_def)
qed

theorem log_is_append_only_witness:
  "map_option (\<lambda>(r, st, w). (r, take 3 st, w))
     (invoke_all (simulated plain_site) (Page 0) crawl (two_pushes, start))
   = Some (Inr (), two_pushes, start)"
proof -
  from crawl_on_plain_site [of two_pushes] obtain st2 where
    e: "invoke_all (simulated plain_site) (Page 0) crawl (two_pushes, start) = Some (Inr (), st2, start)"
    by auto
  from e log_is_append_only [of _ _ _ two_pushes start _ _ _ crawl "Inr ()" st2 start]
  have "prefix two_pushes st2" by simp
  then have "take 3 st2 = two_pushes"
    by (auto simp: prefix_def two_pushes_def)
  with e show ?thesis by simp
qed


subsection \<open>Pagination discovery\<close>

lemma pos_to_entry: "el \<in> set elements \<Longrightarrow> 0 \<le> pos (to_entry elements el)"
  by (simp add: to_entry_def indexOf_nonneg_iff)

lemma by_pos_filtered_mapping:
  "v \<in> set (filtered_mapping elements) \<Longrightarrow> 0 \<le> by_pos v w"
  by (auto simp: filtered_mapping_def by_pos_def pos_to_entry)

lemma discover_pages_unsorted:
  assumes "keeps_ascending_runs array_sort"
  shows "discover_pages array_sort elements = filtered_mapping elements"
proof -
  have "\<forall>i. Suc i < length (filtered_mapping elements) \<longrightarrow>
          0 \<le> by_pos (filtered_mapping elements ! Suc i) (filtered_mapping elements ! i)"
  proof (intro allI impI)
    fix i assume "Suc i < length (filtered_mapping elements)"
    then have "filtered_mapping elements ! Suc i \<in> set (filtered_mapping elements)"
      by (rule nth_mem)
    then show "0 \<le> by_pos (filtered_mapping elements ! Suc i) (filtered_mapping elements ! i)"
      by (rule by_pos_filtered_mapping)
  qed
  with assms show ?thesis
    unfolding keeps_ascending_runs_def discover_pages_def by blast
qed

lemma insert_back_keeps:
  "(ys \<noteq> [] \<longrightarrow> 0 \<le> cmp x (hd ys)) \<Longrightarrow> insert_back cmp x ys = x # ys"
  by (cases ys) auto

lemma insertion_sort_keeps_ascending_runs: "keeps_ascending_runs insertion_sort"
  unfolding keeps_ascending_runs_def
proof (intro allI impI)
  fix cmp :: "'a \<Rightarrow> 'a \<Rightarrow> int" and xs :: "'a list"
  assume "\<forall>i. Suc i < length xs \<longrightarrow> 0 \<le> cmp (xs ! Suc i) (xs ! i)"
  then have "foldl (\<lambda>sorted_rev x. insert_back cmp x sorted_rev) [] xs = rev xs"
  proof (induction xs rule: rev_induct)
    case Nil
    then show ?case by simp
  next
    case (snoc x xs)
    have "\<forall>i. Suc i < length xs \<longrightarrow> 0 \<le> cmp (xs ! Suc i) (xs ! i)"
    proof (intro allI impI)
      fix i assume i: "Suc i < length xs"
      with snoc.prems have "0 \<le> cmp ((xs @ [x]) ! Suc i) ((xs @ [x]) ! i)" by simp
      with i show "0 \<le> cmp (xs ! Suc i) (xs ! i)" by (simp add: nth_append)
    qed
    with snoc.IH have ih: "foldl (\<lambda>sorted_rev x. insert_back cmp x sorted_rev) [] xs = rev xs" by simp
    have "xs \<noteq> [] \<longrightarrow> 0 \<le> cmp x (hd (rev xs))"
    proof
      assume ne: "xs \<noteq> []"
      then obtain n where n: "length xs = Suc n" by (cases xs) auto
      with snoc.prems have "0 \<le> cmp ((xs @ [x]) ! Suc n) ((xs @ [x]) ! n)" by simp
      with n ne show "0 \<le> cmp x (hd (rev xs))"
        by (simp add: nth_append hd_rev last_conv_nth)
    qed
    then have "insert_back cmp x (rev xs) = x # rev xs"
      by (intro insert_back_keeps) simp
    with ih show ?case by simp
  qed
  then show "insertion_sort cmp xs = xs" by (simp add: insertion_sort_def)
qed

lemma filtered_mapping_five_pages:
  "filtered_mapping five_pages
   = [listed 0 1 ''1'', listed 1 2 ''2'', listed 2 3 ''3'', listed 3 4 ''4'', listed 4 5 ''5'']"
  by code_simp

lemma discover_links_results:
  "discover_links ''https://www.myjob.mu'' (five_pages @ more_anchors)
   = [''https://www.myjob.mu/Default.aspx'', ''https://www.myjob.mu/Jobs.aspx'']"
  by code_simp

lemma filtered_mapping_pagination_bar:
  "filtered_mapping pagination_bar
   = [listed 1 1 ''1'', listed 2 2 ''2'', listed 4 3 ''3'', listed 6 4 ''4'', listed 7 5 ''5'']"
  by code_simp

lemma discover_links_busy:
  "discover_links ''https://www.myjob.mu'' (pagination_bar @ more_anchors @ lookalike_anchors)
   = [''https://www.myjob.mu/Default.aspx'', ''https://www.myjob.mu/Jobs.aspx'',
      ''https://www.myjob.mu.evil.example/B.aspx'', ''https://www.myjob.mu:8443/C.aspx'']"
  by code_simp

lemma lookalike_origins:
  "address_origin ''https://www.myjob.mu/Default.aspx'' = ''https://www.myjob.mu''
   \<and> address_origin ''https://www.myjob.mu.evil.example/B.aspx'' = ''https://www.myjob.mu.evil.example''
   \<and> address_origin ''https://www.myjob.mu:8443/C.aspx'' = ''https://www.myjob.mu:8443''"
  by code_simp

lemma not_negative_iff:
  "not_negative x \<longleftrightarrow> (\<exists>n. x = Finite n \<and> 0 \<le> n) \<or> x = Infinite False"
  by (cases x) (auto simp: not_negative_def)

lemma filtered_mapping_kept:
  "e \<in> set (filtered_mapping elements) \<longleftrightarrow>
   (\<exists>el\<in>set elements. e = to_entry elements el)
   \<and> ((\<exists>n. entry_page e = Finite n \<and> 0 \<le> n) \<or> entry_page e = Infinite False)
   \<and> trim (entry_href e) \<noteq> []"
  by (auto simp: filtered_mapping_def keep_entry_def not_negative_iff)

lemma set_add_fold:
  "distinct acc \<Longrightarrow>
   distinct (foldl (\<lambda>s h. set_add h s) acc hs)
   \<and> set (foldl (\<lambda>s h. set_add h s) acc hs) = set acc \<union> set hs"
  by (induction hs arbitrary: acc) (auto simp: set_add_def)

lemma discover_links_set:
  "distinct (discover_links origin anchors)
   \<and> set (discover_links origin anchors)
     = {h \<in> set (map href anchors). startsWith h origin \<and> endsWith h ''.aspx''}"
  using set_add_fold [of "[]" "filter (\<lambda>h. startsWith h origin \<and> endsWith h ''.aspx'') (map href anchors)"]
  by (auto simp: discover_links_def)

lemma discover_on_site:
  "discover (simulated site) pg (st, w)
   = (Inr (),
      st @ [JObj [(''PaginationService'',
              JArr [JObj [(''links'', JArr (map JStr (discover_links (site_origin site) (site_anchors site)))),
                          (''pages'', JArr (map entry_json
                             (discover_pages (site_sort site) (site_pagination site))))]])]],
      w)"
  by (simp add: discover_def simulated_def run_script_def statePush_def)

text \<open>
  C3. The comparison function of the trailing sort returns the \<^verbatim>\<open>pos\<close> of its first
  argument, which is never negative on the entries that the map and the filter produce.
  So an engine whose sort returns as it is an array in which the comparison function,
  called with an element and the one before it, never returns a negative number, as the
  run detection of the engine that runs the page does, reorders nothing: the pages
  returned are the filtered mapping, in its order.
\<close>

theorem sort_by_pos_keeps_order:
  "(v \<in> set (filtered_mapping elements) \<longrightarrow> 0 \<le> by_pos v w)
   \<and> (keeps_ascending_runs array_sort \<longrightarrow>
        discover_pages array_sort elements = filtered_mapping elements)"
  using by_pos_filtered_mapping [of v elements w] discover_pages_unsorted [of array_sort elements]
  by blast

theorem sort_by_pos_keeps_order_witness:
  "keeps_ascending_runs (insertion_sort :: pagination_entry sort_impl)
   \<and> discover_pages insertion_sort five_pages = filtered_mapping five_pages"
  using sort_by_pos_keeps_order [of _ five_pages _ insertion_sort] insertion_sort_keeps_ascending_runs
  by blast

text \<open>
  C6. On the results page with pagination anchors labelled 1 to 5 and \<^verbatim>\<open>Page=N\<close> in
  their query strings, \<^verbatim>\<open>discover\<close> pushes one record whose \<^verbatim>\<open>pages\<close> are exactly
  five entries, in the order of the anchors, the \<^verbatim>\<open>props\<close> of each carrying the
  lower-case key \<^verbatim>\<open>page\<close> with the label as a string. The same five entries, with the
  positions their anchors have in the container, come from the container that also
  holds a label that is no number, a negative label, an address of spaces only and an
  anchor without label and address: an entry is kept exactly when its page number is
  not negative and its address is not blank. The order of \<^verbatim>\<open>pages\<close> is that of the
  engine's sort, taken as under C3. The \<^verbatim>\<open>links\<close> are, without duplicates, the
  addresses of anchors that start with the characters of the origin and end in
  \<^verbatim>\<open>.aspx\<close>. That is not the same as being of the page's origin: on the second page
  the address on the host \<^verbatim>\<open>www.myjob.mu.evil.example\<close> and the one on port 8443 are
  among the links.
\<close>

theorem discover_on_results_page:
  "(keeps_ascending_runs array_sort \<longrightarrow>
      discover_pages array_sort five_pages
      = [listed 0 1 ''1'', listed 1 2 ''2'', listed 2 3 ''3'', listed 3 4 ''4'', listed 4 5 ''5'']
      \<and> discover (simulated (results_site array_sort)) pg (st, w)
        = (Inr (),
           st @ [JObj [(''PaginationService'',
                   JArr [JObj [(''links'',
                                JArr [JStr ''https://www.myjob.mu/Default.aspx'',
                                      JStr ''https://www.myjob.mu/Jobs.aspx'']),
                               (''pages'',
                                JArr (map entry_json
                                  [listed 0 1 ''1'', listed 1 2 ''2'', listed 2 3 ''3'',
                                   listed 3 4 ''4'', listed 4 5 ''5'']))]])]],
           w)
      \<and> discover_pages array_sort pagination_bar
      = [listed 1 1 ''1'', listed 2 2 ''2'', listed 4 3 ''3'', listed 6 4 ''4'', listed 7 5 ''5'']
      \<and> discover (simulated (busy_site array_sort)) pg (st, w)
        = (Inr (),
           st @ [JObj [(''PaginationService'',
                   JArr [JObj [(''links'',
                                JArr [JStr ''https://www.myjob.mu/Default.aspx'',
                                      JStr ''https://www.myjob.mu/Jobs.aspx'',
                                      JStr ''https://www.myjob.mu.evil.example/B.aspx'',
                                      JStr ''https://www.myjob.mu:8443/C.aspx'']),
                               (''pages'',
                                JArr (map entry_json
                                  [listed 1 1 ''1'', listed 2 2 ''2'', listed 4 3 ''3'',
                                   listed 6 4 ''4'', listed 7 5 ''5'']))]])]],
           w))
   \<and> map (\<lambda>e. map_option (\<lambda>kvs. map_of kvs ''page'') (props e))
        [listed 0 1 ''1'', listed 1 2 ''2'', listed 2 3 ''3'', listed 3 4 ''4'', listed 4 5 ''5'']
     = [Some (Some ''1''), Some (Some ''2''), Some (Some ''3''), Some (Some ''4''), Some (Some ''5'')]
   \<and> (e \<in> set (filtered_mapping elements) \<longleftrightarrow>
        (\<exists>el\<in>set elements. e = to_entry elements el)
        \<and> ((\<exists>n. entry_page e = Finite n \<and> 0 \<le> n) \<or> entry_page e = Infinite False)
        \<and> trim (entry_href e) \<noteq> [])
   \<and> (keeps_ascending_runs array_sort \<longrightarrow>
        discover_pages array_sort elements = filtered_mapping elements)
   \<and> distinct (discover_links origin anchors)
   \<and> set (discover_links origin anchors)
     = {h \<in> set (map href anchors). startsWith h origin \<and> endsWith h ''.aspx''}
   \<and> address_origin ''https://www.myjob.mu.evil.example/B.aspx'' \<noteq> ''https://www.myjob.mu''
   \<and> address_origin ''https://www.myjob.mu:8443/C.aspx'' \<noteq> ''https://www.myjob.mu''"
proof (intro conjI impI)
  assume k: "keeps_ascending_runs array_sort"
  from discover_pages_unsorted [OF k, of five_pages]
  show p: "discover_pages array_sort five_pages
      = [listed 0 1 ''1'', listed 1 2 ''2'', listed 2 3 ''3'', listed 3 4 ''4'', listed 4 5 ''5'']"
    by (simp only: filtered_mapping_five_pages)
  from discover_pages_unsorted [OF k, of pagination_bar]
  show q: "discover_pages array_sort pagination_bar
      = [listed 1 1 ''1'', listed 2 2 ''2'', listed 4 3 ''3'', listed 6 4 ''4'', listed 7 5 ''5'']"
    by (simp only: filtered_mapping_pagination_bar)
  have o: "site_origin (results_site array_sort) = ''https://www.myjob.mu''"
    and a: "site_anchors (results_site array_sort) = five_pages @ more_anchors"
    and g: "site_pagination (results_site array_sort) = five_pages"
    and s: "site_sort (results_site array_sort) = array_sort"
    by (simp_all add: results_site_def plain_site_def)
  show "discover (simulated (results_site array_sort)) pg (st, w)
        = (Inr (),
           st @ [JObj [(''PaginationService'',
                   JArr [JObj [(''links'',
                                JArr [JStr ''https://www.myjob.mu/Default.aspx'',
                                      JStr ''https://www.myjob.mu/Jobs.aspx'']),
                               (''pages'',
                                JArr (map entry_json
                                  [listed 0 1 ''1'', listed 1 2 ''2'', listed 2 3 ''3'',
                                   listed 3 4 ''4'', listed 4 5 ''5'']))]])]],
           w)"
    unfolding discover_on_site o a g s p discover_links_results by simp
  have o': "site_origin (busy_site array_sort) = ''https://www.myjob.mu''"
    and a': "site_anchors (busy_site array_sort) = pagination_bar @ more_anchors @ lookalike_anchors"
    and g': "site_pagination (busy_site array_sort) = pagination_bar"
    and s': "site_sort (busy_site array_sort) = array_sort"
    by (simp_all add: busy_site_def plain_site_def)
  show "discover (simulated (busy_site array_sort)) pg (st, w)
        = (Inr (),
           st @ [JObj [(''PaginationService'',
                   JArr [JObj [(''links'',
                                JArr [JStr ''https://www.myjob.mu/Default.aspx'',
                                      JStr ''https://www.myjob.mu/Jobs.aspx'',
                                      JStr ''https://www.myjob.mu.evil.example/B.aspx'',
                                      JStr ''https://www.myjob.mu:8443/C.aspx'']),
                               (''pages'',
                                JArr (map entry_json
                                  [listed 1 1 ''1'', listed 2 2 ''2'', listed 4 3 ''3'',
                                   listed 6 4 ''4'', listed 7 5 ''5'']))]])]],
           w)"
    unfolding discover_on_site o' a' g' s' q discover_links_busy by simp
next
  show "map (\<lambda>e. map_option (\<lambda>kvs. map_of kvs ''page'') (props e))
        [listed 0 1 ''1'', listed 1 2 ''2'', listed 2 3 ''3'', listed 3 4 ''4'', listed 4 5 ''5'']
     = [Some (Some ''1''), Some (Some ''2''), Some (Some ''3''), Some (Some ''4''), Some (Some ''5'')]"
    by (simp add: listed_def)
next
  show "e \<in> set (filtered_mapping elements) \<longleftrightarrow>
        (\<exists>el\<in>set elements. e = to_entry elements el)
        \<and> ((\<exists>n. entry_page e = Finite n \<and> 0 \<le> n) \<or> entry_page e = Infinite False)
        \<and> trim (entry_href e) \<noteq> []"
    by (rule filtered_mapping_kept)
next
  assume "keeps_ascending_runs array_sort"
  then show "discover_pages array_sort elements = filtered_mapping elements"
    by (rule discover_pages_unsorted)
next
  show "distinct (discover_links origin anchors)"
    using discover_links_set by blast
next
  show "set (discover_links origin anchors)
     = {h \<in> set (map href anchors). startsWith h origin \<and> endsWith h ''.aspx''}"
    using discover_links_set by blast
next
  show "address_origin ''https://www.myjob.mu.evil.example/B.aspx'' \<noteq> ''https://www.myjob.mu''"
    using lookalike_origins by simp
next
  show "address_origin ''https://www.myjob.mu:8443/C.aspx'' \<noteq> ''https://www.myjob.mu''"
    using lookalike_origins by simp
qed

theorem discover_on_results_page_witness:
  "keeps_ascending_runs (insertion_sort :: pagination_entry sort_impl)
   \<and> discover (simulated (busy_site insertion_sort)) (Page 0) ([], start)
        = (Inr (),
           [JObj [(''PaginationService'',
                   JArr [JObj [(''links'',
                                JArr [JStr ''https://www.myjob.mu/Default.aspx'',
                                      JStr ''https://www.myjob.mu/Jobs.aspx'',
                                      JStr ''https://www.myjob.mu.evil.example/B.aspx'',
                                      JStr ''https://www.myjob.mu:8443/C.aspx'']),
                               (''pages'',
                                JArr (map entry_json
                                  [listed 1 1 ''1'', listed 2 2 ''2'', listed 4 3 ''3'',
                                   listed 6 4 ''4'', listed 7 5 ''5'']))]])]],
           start)
   \<and> discover_pages insertion_sort five_pages
      = [listed 0 1 ''1'', listed 1 2 ''2'', listed 2 3 ''3'', listed 3 4 ''4'', listed 4 5 ''5'']"
proof -
  note k = insertion_sort_keeps_ascending_runs [where ?'a = pagination_entry]
  note t = discover_on_results_page [of insertion_sort "Page 0" "[]" start, THEN conjunct1, THEN mp, OF k]
  from t have 1: "discover_pages insertion_sort five_pages
      = [listed 0 1 ''1'', listed 1 2 ''2'', listed 2 3 ''3'', listed 3 4 ''4'', listed 4 5 ''5'']"
    by (rule conjunct1)
  from t [THEN conjunct2, THEN conjunct2, THEN conjunct2]
  have 2: "discover (simulated (busy_site insertion_sort)) (Page 0) ([], start)
        = (Inr (),
           [] @ [JObj [(''PaginationService'',
                   JArr [JObj [(''links'',
                                JArr [JStr ''https://www.myjob.mu/Default.aspx'',
                                      JStr ''https://www.myjob.mu/Jobs.aspx'',
                                      JStr ''https://www.myjob.mu.evil.example/B.aspx'',
                                      JStr ''https://www.myjob.mu:8443/C.aspx'']),
                               (''pages'',
                                JArr (map entry_json
                                  [listed 1 1 ''1'', listed 2 2 ''2'', listed 4 3 ''3'',
                                   listed 6 4 ''4'', listed 7 5 ''5'']))]])]],
           start)"
    .
  from k 1 2 show ?thesis by (simp only: append_Nil simp_thms)
qed

end
